theory Spec2Isabelle
  imports Complex_Main
begin

section \<open>Strings of UTF-16 code units\<close>

text \<open>
  A JavaScript string is a sequence of 16-bit code units, and a regular expression without
  the \<open>u\<close> flag matches code unit by code unit.  The bullet glyphs of the converter lie
  outside ASCII (U+2022, U+25CF, ...), each one code unit, so a string is modelled as the list
  of its code units.  \<open>u ''abc''\<close> is the string of an ASCII literal.
\<close>

type_synonym jsstring = "nat list"

definition u :: "string \<Rightarrow> jsstring" where
  "u cs = map of_char cs"

text \<open>\<open>\<backslash>s\<close>: WhiteSpace and LineTerminator of ECMAScript; \<open>trim\<close> strips the same set.\<close>

definition isSpace :: "nat \<Rightarrow> bool" where
  "isSpace a = (a \<in> set [9, 10, 11, 12, 13, 32, 160, 5760, 8232, 8233, 8239, 8287, 12288, 65279]
                \<or> (8192 \<le> a \<and> a \<le> 8202))"

definition isDigit :: "nat \<Rightarrow> bool" where
  "isDigit a = (48 \<le> a \<and> a \<le> 57)"

definition isLineTerminator :: "nat \<Rightarrow> bool" where
  "isLineTerminator a = (a \<in> set [10, 13, 8232, 8233])"

definition trim :: "jsstring \<Rightarrow> jsstring" where
  "trim s = rev (dropWhile isSpace (rev (dropWhile isSpace s)))"

section \<open>Regular expressions\<close>

text \<open>
  The backtracking matcher of ECMAScript, for the constructs the converter uses.  A state is
  the index reached, the rest of the input, and the captures so far.  \<open>rxm r st\<close> lists the
  states in which \<open>r\<close> can end when started in \<open>st\<close>, in the order backtracking tries them:
  the head is the match the engine reports.  A greedy star tries one more iteration before
  stopping and a lazy star stops first; an iteration that consumes nothing is not repeated.
\<close>

datatype rx =
    Cls "nat \<Rightarrow> bool"
  | Eps
  | Seq rx rx
  | Alt rx rx
  | Star rx
  | LazyStar rx
  | Grp nat rx
  | Bol
  | Eol
  | EolM

type_synonym mstate = "nat \<times> jsstring \<times> (nat \<times> jsstring) list"

function rxm :: "rx \<Rightarrow> mstate \<Rightarrow> mstate list" where
  "rxm (Cls p) (i, s, c) = (case s of [] \<Rightarrow> [] | a # s' \<Rightarrow> if p a then [(Suc i, s', c)] else [])"
| "rxm Eps st = [st]"
| "rxm (Seq a b) st = concat (map (rxm b) (rxm a st))"
| "rxm (Alt a b) st = rxm a st @ rxm b st"
| "rxm (Star a) (i, s, c) =
     concat (map (\<lambda>(i', s', c'). if length s' < length s then rxm (Star a) (i', s', c') else [])
                 (rxm a (i, s, c))) @ [(i, s, c)]"
| "rxm (LazyStar a) (i, s, c) =
     (i, s, c) #
     concat (map (\<lambda>(i', s', c'). if length s' < length s then rxm (LazyStar a) (i', s', c') else [])
                 (rxm a (i, s, c)))"
| "rxm (Grp n a) (i, s, c) = map (\<lambda>(i', s', c'). (i', s', (n, take (i' - i) s) # c')) (rxm a (i, s, c))"
| "rxm Bol (i, s, c) = (if i = 0 then [(i, s, c)] else [])"
| "rxm Eol (i, s, c) = (if s = [] then [(i, s, c)] else [])"
| "rxm EolM (i, s, c) = (case s of [] \<Rightarrow> [(i, s, c)] | a # _ \<Rightarrow> if isLineTerminator a then [(i, s, c)] else [])"
  by pat_completeness auto
termination
  by (relation "measures [\<lambda>(r, st). size r, \<lambda>(r, (i, s, c)). length s]") auto

abbreviation Plus :: "rx \<Rightarrow> rx" where
  "Plus r \<equiv> Seq r (Star r)"

abbreviation LazyPlus :: "rx \<Rightarrow> rx" where
  "LazyPlus r \<equiv> Seq r (LazyStar r)"

abbreviation Opt :: "rx \<Rightarrow> rx" where
  "Opt r \<equiv> Alt r Eps"

fun rxLit :: "jsstring \<Rightarrow> rx" where
  "rxLit [] = Eps"
| "rxLit (a # s) = Seq (Cls (\<lambda>b. b = a)) (rxLit s)"

text \<open>The leftmost match at or after index \<open>i\<close>, where \<open>s\<close> is the input from \<open>i\<close> on.\<close>

fun rxSearch :: "rx \<Rightarrow> nat \<Rightarrow> jsstring \<Rightarrow> (nat \<times> mstate) option" where
  "rxSearch r i s =
     (case rxm r (i, s, []) of
        st # _ \<Rightarrow> Some (i, st)
      | [] \<Rightarrow> (case s of [] \<Rightarrow> None | _ # s' \<Rightarrow> rxSearch r (Suc i) s'))"

definition rxTest :: "rx \<Rightarrow> jsstring \<Rightarrow> bool" where
  "rxTest r s = (rxSearch r 0 s \<noteq> None)"

text \<open>
  \<open>String.prototype.replace\<close> with a global pattern.  \<open>replaceFrom r f i k s\<close> is the output
  for the input from index \<open>i\<close> on, where the first \<open>k\<close> code units of \<open>s\<close> belong to the
  match found before and are skipped.  At every other index the pattern is tried: a match is
  replaced by \<open>f\<close> of the matched text and the captures, and the search goes on at its end
  (one unit further after a match of length 0); where nothing matches the unit is copied.
\<close>

type_synonym replacer = "jsstring \<Rightarrow> (nat \<times> jsstring) list \<Rightarrow> jsstring"

fun replaceFrom :: "rx \<Rightarrow> replacer \<Rightarrow> nat \<Rightarrow> nat \<Rightarrow> jsstring \<Rightarrow> jsstring" where
  "replaceFrom r f i k [] =
     (if 0 < k then []
      else case rxm r (i, [], []) of [] \<Rightarrow> [] | (j, _, c) # _ \<Rightarrow> f [] c)"
| "replaceFrom r f i k (a # s) =
     (if 0 < k then replaceFrom r f (Suc i) (k - 1) s
      else case rxm r (i, a # s, []) of
             [] \<Rightarrow> a # replaceFrom r f (Suc i) 0 s
           | (j, _, c) # _ \<Rightarrow>
               f (take (j - i) (a # s)) c @
               (if j = i then a # replaceFrom r f (Suc i) 0 s
                else replaceFrom r f (Suc i) (j - i - 1) s))"

definition replaceAll :: "rx \<Rightarrow> replacer \<Rightarrow> jsstring \<Rightarrow> jsstring" where
  "replaceAll r f s = replaceFrom r f 0 0 s"

text \<open>\<open>replace\<close> with a pattern that is not global: the leftmost match only.\<close>

definition replaceFirst :: "rx \<Rightarrow> replacer \<Rightarrow> jsstring \<Rightarrow> jsstring" where
  "replaceFirst r f s =
     (case rxSearch r 0 s of
        None \<Rightarrow> s
      | Some (i, j, rest, c) \<Rightarrow> take i s @ f (take (j - i) (drop i s)) c @ rest)"

text \<open>Replacement templates: literal text and \<open>$n\<close>; a group that took no part gives \<open>''\<close>.\<close>

datatype rtok = Lit jsstring | Ref nat

fun expand :: "rtok list \<Rightarrow> replacer" where
  "expand [] m c = []"
| "expand (Lit t # ts) m c = t @ expand ts m c"
| "expand (Ref n # ts) m c = (case map_of c n of None \<Rightarrow> [] | Some g \<Rightarrow> g) @ expand ts m c"

text \<open>\<open>split\<close> on a one-unit separator string, as in \<open>text.split('\\n')\<close>.\<close>

fun splitOn :: "nat \<Rightarrow> jsstring \<Rightarrow> jsstring list" where
  "splitOn d [] = [[]]"
| "splitOn d (a # s) =
     (if a = d then [] # splitOn d s
      else case splitOn d s of [] \<Rightarrow> [[a]] | p # ps \<Rightarrow> (a # p) # ps)"

fun joinWith :: "jsstring \<Rightarrow> jsstring list \<Rightarrow> jsstring" where
  "joinWith d [] = []"
| "joinWith d [p] = p"
| "joinWith d (p # q # ps) = p @ d @ joinWith d (q # ps)"

text \<open>
  \<open>s.split(/(r)/)\<close>: split on the matches of \<open>r\<close>, keeping each separator (the capture
  of the whole pattern) between the pieces.  \<open>cur\<close> is the piece collected since the last
  separator; the pattern is tried at every index outside a separator.  A match of length 0
  splits only where the current piece is not empty.
\<close>

fun splitFrom :: "rx \<Rightarrow> nat \<Rightarrow> nat \<Rightarrow> jsstring \<Rightarrow> jsstring \<Rightarrow> jsstring list" where
  "splitFrom r i k cur [] = [cur]"
| "splitFrom r i k cur (a # s) =
     (if 0 < k then splitFrom r (Suc i) (k - 1) cur s
      else case rxm r (i, a # s, []) of
             [] \<Rightarrow> splitFrom r (Suc i) 0 (cur @ [a]) s
           | (j, _, _) # _ \<Rightarrow>
               if j = i then
                 (if cur = [] then splitFrom r (Suc i) 0 [a] s
                  else cur # [] # splitFrom r (Suc i) 0 [a] s)
               else cur # take (j - i) (a # s) # splitFrom r (Suc i) (j - i - 1) [] s)"

definition splitKeep :: "rx \<Rightarrow> jsstring \<Rightarrow> jsstring list" where
  "splitKeep r s =
     (if s = [] then (case rxm r (0, [], []) of [] \<Rightarrow> [[]] | _ # _ \<Rightarrow> [])
      else splitFrom r 0 0 [] s)"

text \<open>\<open>s.includes(t)\<close>.\<close>

fun includesStr :: "jsstring \<Rightarrow> jsstring \<Rightarrow> bool" where
  "includesStr [] t = (t = [])"
| "includesStr (a # s) t = (take (length t) (a # s) = t \<or> includesStr s t)"

text \<open>
  \<open>toLowerCase\<close>, as far as ASCII goes: \<open>A\<close>-\<open>Z\<close> become \<open>a\<close>-\<open>z\<close>, the Kelvin sign
  U+212A becomes \<open>k\<close> and U+0130 becomes \<open>i\<close> followed by U+0307.  No other code unit
  maps into ASCII, and the converter only looks for ASCII words in the result, so the other
  units are left in place.
\<close>

definition lowerUnit :: "nat \<Rightarrow> jsstring" where
  "lowerUnit a =
     (if 65 \<le> a \<and> a \<le> 90 then [a + 32]
      else if a = 8490 then [107]
      else if a = 304 then [105, 775]
      else [a])"

definition toLowerCase :: "jsstring \<Rightarrow> jsstring" where
  "toLowerCase s = concat (map lowerUnit s)"

text \<open>
  \<open>Array.prototype.sort\<close> with a comparator is stable: of two elements that compare equal
  the one that came first stays first.  Insertion from the right computes that order.
\<close>

fun insortBy :: "('a \<Rightarrow> 'a \<Rightarrow> real) \<Rightarrow> 'a \<Rightarrow> 'a list \<Rightarrow> 'a list" where
  "insortBy cmp a [] = [a]"
| "insortBy cmp a (b # bs) = (if cmp a b \<le> 0 then a # b # bs else b # insortBy cmp a bs)"

definition jsSort :: "('a \<Rightarrow> 'a \<Rightarrow> real) \<Rightarrow> 'a list \<Rightarrow> 'a list" where
  "jsSort cmp xs = foldr (insortBy cmp) xs []"

section \<open>Objects as tables\<close>

text \<open>
  An object used as a table is the list of its own properties in the order of their
  creation.  Writing an existing key keeps its place, writing a new key appends it.
\<close>

fun objSet :: "('k \<times> 'v) list \<Rightarrow> 'k \<Rightarrow> 'v \<Rightarrow> ('k \<times> 'v) list" where
  "objSet [] k v = [(k, v)]"
| "objSet ((k', v') # kvs) k v = (if k' = k then (k, v) # kvs else (k', v') # objSet kvs k v)"

text \<open>
  \<open>Object.entries\<close> does not list the properties in the order of creation alone: the keys
  that are array indices (the canonical decimal strings of the integers below \<open>2^32 - 1\<close>)
  come first, in ascending numeric order, and the other keys follow in the order of creation.
\<close>

definition decimalValue :: "jsstring \<Rightarrow> nat" where
  "decimalValue k = foldl (\<lambda>n d. 10 * n + (d - 48)) 0 k"

definition isArrayIndex :: "jsstring \<Rightarrow> bool" where
  "isArrayIndex k =
     (k \<noteq> [] \<and> list_all isDigit k \<and> (k = [48] \<or> hd k \<noteq> 48) \<and> decimalValue k < 2 ^ 32 - 1)"

definition objectEntries :: "(jsstring \<times> 'v) list \<Rightarrow> (jsstring \<times> 'v) list" where
  "objectEntries kvs =
     jsSort (\<lambda>a b. of_nat (decimalValue (fst a)) - of_nat (decimalValue (fst b)))
            (filter (\<lambda>e. isArrayIndex (fst e)) kvs)
     @ filter (\<lambda>e. \<not> isArrayIndex (fst e)) kvs"

section \<open>The input: text items of a PDF page\<close>

text \<open>
  pdf.js gives, for each page, the list \<open>textContent.items\<close>.  The converter reads of an
  item its \<open>str\<close>, \<open>fontName\<close> (which may be missing) and the entries 0, 4 and 5 of
  \<open>transform\<close>: the horizontal scale, taken as the font size, and the position x, y.
  Coordinates are finite numbers; a finite double is a real number, on which
  \<open>Math.round\<close>, \<open>Math.abs\<close>, the comparisons and the sign of a difference are exact.
\<close>

record textItem =
  str :: jsstring
  fontName :: "jsstring option"
  transform0 :: real
  transform4 :: real
  transform5 :: real

text \<open>\<open>item.fontName || ''\<close>\<close>

definition fontNameOr :: "textItem \<Rightarrow> jsstring" where
  "fontNameOr item = (case fontName item of None \<Rightarrow> [] | Some f \<Rightarrow> f)"

text \<open>
  \<open>Math.round\<close> returns the integer closest to its argument and, of two integers equally
  close, the one closer to \<open>+\<infinity>\<close>.
\<close>

definition mathRound :: "real \<Rightarrow> int" where
  "mathRound v = \<lfloor>v + 1 / 2\<rfloor>"

section \<open>First pass: the regular font\<close>

text \<open>
  \<open>fontCounts\<close> is a plain object \<open>{}\<close>, so \<open>fontCounts[item.fontName]\<close> reads an own
  property if there is one and otherwise a member of \<open>Object.prototype\<close>: one of its eleven
  functions, or the accessor \<open>__proto__\<close>, whose getter gives the prototype and whose setter
  ignores a number.  A count is a number, which may be \<open>NaN\<close>.
\<close>

datatype count = NaN | Num nat

datatype property = Undefined | Own count | Inherited

definition objectPrototypeFunctions :: "jsstring list" where
  "objectPrototypeFunctions =
     map u [''constructor'', ''__defineGetter__'', ''__defineSetter__'', ''hasOwnProperty'',
            ''__lookupGetter__'', ''__lookupSetter__'', ''isPrototypeOf'',
            ''propertyIsEnumerable'', ''toString'', ''valueOf'', ''toLocaleString'']"

definition inheritedKey :: "jsstring \<Rightarrow> bool" where
  "inheritedKey name = (name = u ''__proto__'' \<or> name \<in> set objectPrototypeFunctions)"

text \<open>\<open>fontCounts[name]\<close>, read.\<close>

definition getCount :: "(jsstring \<times> count) list \<Rightarrow> jsstring \<Rightarrow> property" where
  "getCount fc name =
     (case map_of fc name of
        Some v \<Rightarrow> Own v
      | None \<Rightarrow> if inheritedKey name then Inherited else Undefined)"

text \<open>\<open>fontCounts[name] = v\<close> for a number \<open>v\<close>: the setter of \<open>__proto__\<close> ignores it.\<close>

definition putCount :: "(jsstring \<times> count) list \<Rightarrow> jsstring \<Rightarrow> count \<Rightarrow> (jsstring \<times> count) list" where
  "putCount fc name v = (if name = u ''__proto__'' then fc else objSet fc name v)"

text \<open>
  What \<open>!\<close> negates: \<open>undefined\<close>, \<open>NaN\<close> and 0 are falsy, a function and the prototype
  are truthy.
\<close>

fun truthy :: "property \<Rightarrow> bool" where
  "truthy Undefined = False"
| "truthy (Own NaN) = False"
| "truthy (Own (Num n)) = (n \<noteq> 0)"
| "truthy Inherited = True"

text \<open>The value that \<open>++\<close> stores: the number plus one, and \<open>NaN\<close> for what is not a number.\<close>

fun increment :: "property \<Rightarrow> count" where
  "increment (Own (Num n)) = Num (Suc n)"
| "increment (Own NaN) = NaN"
| "increment Inherited = NaN"
| "increment Undefined = NaN"

definition allItems :: "textItem list list \<Rightarrow> (jsstring \<times> real) list" where
  "allItems pages = map (\<lambda>item. (fontNameOr item, \<bar>transform0 item\<bar>)) (concat pages)"

definition countFont :: "(jsstring \<times> count) list \<Rightarrow> jsstring \<times> real \<Rightarrow> (jsstring \<times> count) list" where
  "countFont fc item =
     (let name = fst item;
          fc1 = (if \<not> truthy (getCount fc name) then putCount fc name (Num 0) else fc)
      in putCount fc1 name (increment (getCount fc1 name)))"

definition fontCounts :: "textItem list list \<Rightarrow> (jsstring \<times> count) list" where
  "fontCounts pages = foldl countFont [] (allItems pages)"

text \<open>
  \<open>b[1] - a[1]\<close>, as the sort reads it: the difference of two numbers, and 0 where a count
  is \<open>NaN\<close>, since the sort takes a comparator's \<open>NaN\<close> for \<open>+0\<close>.  (Where a \<open>NaN\<close> count
  makes the comparator inconsistent, ECMAScript leaves the order to the implementation; the
  model then has the order of the insertion sort.)
\<close>

definition difference :: "count \<Rightarrow> count \<Rightarrow> real" where
  "difference b a = (case (b, a) of (Num m, Num n) \<Rightarrow> real m - real n | _ \<Rightarrow> 0)"

definition sortedFonts :: "textItem list list \<Rightarrow> (jsstring \<times> count) list" where
  "sortedFonts pages = jsSort (\<lambda>a b. difference (snd b) (snd a)) (objectEntries (fontCounts pages))"

text \<open>\<open>sortedFonts[0]?.[0]\<close>: \<open>None\<close> is \<open>undefined\<close>.\<close>

definition regularFont :: "textItem list list \<Rightarrow> jsstring option" where
  "regularFont pages = (case sortedFonts pages of [] \<Rightarrow> None | e # _ \<Rightarrow> Some (fst e))"

section \<open>Second pass: lines of a page\<close>

record lineItem =
  item_text :: jsstring
  item_x :: real
  item_isBold :: bool
  item_isCitation :: bool
  item_fontSize :: real
  item_fontName :: jsstring

definition isBold :: "jsstring option \<Rightarrow> jsstring \<Rightarrow> bool" where
  "isBold regular name =
     (includesStr (toLowerCase name) (u ''bold'') \<or>
      includesStr (toLowerCase name) (u ''heavy'') \<or>
      includesStr (toLowerCase name) (u ''black'') \<or>
      (Some name \<noteq> regular \<and> name \<noteq> []))"

text \<open>\<open>/^\d+$/.test(textTrimmed) && fontSize < 10\<close>\<close>

definition isCitation :: "jsstring \<Rightarrow> real \<Rightarrow> bool" where
  "isCitation s fontSize =
     (rxTest (Seq Bol (Seq (Plus (Cls isDigit)) Eol)) (trim s) \<and> fontSize < 10)"

definition annotate :: "jsstring option \<Rightarrow> textItem \<Rightarrow> lineItem" where
  "annotate regular item =
     \<lparr> item_text = str item,
       item_x = transform4 item,
       item_isBold = isBold regular (fontNameOr item),
       item_isCitation = isCitation (str item) \<bar>transform0 item\<bar>,
       item_fontSize = \<bar>transform0 item\<bar>,
       item_fontName = fontNameOr item \<rparr>"

text \<open>
  \<open>lines\<close> is a table from the rounded y to the items of that line, in the order of the
  page.  Its keys are the decimal strings of integers; \<open>Object.keys(lines).map(Number)\<close>
  gives the integers back, in an order that the sort that follows makes irrelevant, so the
  table is keyed by the integers themselves.
\<close>

text \<open>\<open>lines[y]\<close>, where the key is present.\<close>

definition itemsAt :: "(int \<times> lineItem list) list \<Rightarrow> int \<Rightarrow> lineItem list" where
  "itemsAt lines y = (case map_of lines y of None \<Rightarrow> [] | Some l \<Rightarrow> l)"

definition addItem :: "jsstring option \<Rightarrow> (int \<times> lineItem list) list \<Rightarrow> textItem \<Rightarrow> (int \<times> lineItem list) list" where
  "addItem regular lines item =
     (let y = mathRound (transform5 item);
          lines1 = (if map_of lines y = None then objSet lines y [] else lines)
      in objSet lines1 y (itemsAt lines1 y @ [annotate regular item]))"

definition groupLines :: "jsstring option \<Rightarrow> textItem list \<Rightarrow> (int \<times> lineItem list) list" where
  "groupLines regular items = foldl (addItem regular) [] items"

definition sortedYs :: "(int \<times> lineItem list) list \<Rightarrow> int list" where
  "sortedYs lines = jsSort (\<lambda>a b. of_int b - of_int a) (map fst lines)"

definition lineItems :: "(int \<times> lineItem list) list \<Rightarrow> int \<Rightarrow> lineItem list" where
  "lineItems lines y = jsSort (\<lambda>a b. item_x a - item_x b) (itemsAt lines y)"

text \<open>The Lines of a page, top to bottom, each with its items left to right.\<close>

definition pageLines :: "jsstring option \<Rightarrow> textItem list \<Rightarrow> (int \<times> lineItem list) list" where
  "pageLines regular items =
     (let lines = groupLines regular items in map (\<lambda>y. (y, lineItems lines y)) (sortedYs lines))"

fun lineText :: "lineItem list \<Rightarrow> jsstring" where
  "lineText [] = []"
| "lineText (item # items) =
     (if item_isCitation item then lineText items
      else if item_isBold item then u ''**'' @ item_text item @ u ''**'' @ lineText items
      else item_text item @ lineText items)"

fun pageTextOf :: "lineItem list list \<Rightarrow> jsstring" where
  "pageTextOf [] = []"
| "pageTextOf (l # ls) =
     (if trim (lineText l) \<noteq> [] then lineText l @ [10] @ pageTextOf ls else pageTextOf ls)"

definition pageText :: "jsstring option \<Rightarrow> textItem list \<Rightarrow> jsstring" where
  "pageText regular items = pageTextOf (map snd (pageLines regular items))"

text \<open>\<open>fullText\<close>: the page texts, with \<open>\n\n\<close> before every page but the first.\<close>

fun fullTextFrom :: "jsstring option \<Rightarrow> nat \<Rightarrow> textItem list list \<Rightarrow> jsstring" where
  "fullTextFrom regular pageNum [] = []"
| "fullTextFrom regular pageNum (items # pages) =
     (if 1 < pageNum then [10, 10] else []) @ pageText regular items
     @ fullTextFrom regular (Suc pageNum) pages"

definition fullText :: "textItem list list \<Rightarrow> jsstring" where
  "fullText pages = fullTextFrom (regularFont pages) 1 pages"

section \<open>formatAsMarkdown\<close>

text \<open>
  \<open>bulletChars\<close> is the class of the sixteen bullet glyphs U+2022, U+25CF, U+25CB, U+25A0,
  U+25A1, U+25AA, U+25AB, U+2713, U+2717, U+25C6, U+25C7, U+2605, U+2606, U+27A4, U+27A2,
  U+2B9E.
\<close>

definition isBulletChar :: "nat \<Rightarrow> bool" where
  "isBulletChar a =
     (a \<in> set [8226, 9679, 9675, 9632, 9633, 9642, 9643, 10003, 10007, 9670, 9671, 9733, 9734,
                10148, 10146, 11166])"

definition bulletChars :: rx where
  "bulletChars = Cls isBulletChar"

text \<open>\<open>new RegExp(`^${bulletChars}$`)\<close>\<close>

definition bulletOnly :: rx where
  "bulletOnly = Seq Bol (Seq bulletChars Eol)"

text \<open>
  \<open>/^([bullets]+|[dashes])\s+(.+)/\<close>, with the sixteen glyphs above for \<open>bullets\<close> and the
  hyphen U+002D, the en dash U+2013 and the em dash U+2014 for \<open>dashes\<close>.
\<close>

definition bulletMatchRx :: rx where
  "bulletMatchRx =
     Seq Bol (Seq (Grp 1 (Alt (Plus bulletChars) (Cls (\<lambda>a. a \<in> set [45, 8211, 8212]))))
             (Seq (Plus (Cls isSpace)) (Grp 2 (Plus (Cls (\<lambda>a. \<not> isLineTerminator a))))))"

text \<open>
  \<open>/^(\d+[\.\)]\s+|[a-z][\.\)]\s+|[ivxlcdm]+[\.\)]\s+)(.+)/i\<close>.  Under the flag \<open>i\<close> a class of
  ASCII letters matches these letters in both cases and nothing else.
\<close>

definition isLetter :: "nat \<Rightarrow> bool" where
  "isLetter a = ((97 \<le> a \<and> a \<le> 122) \<or> (65 \<le> a \<and> a \<le> 90))"

definition isRoman :: "nat \<Rightarrow> bool" where
  "isRoman a = (a \<in> set [105, 118, 120, 108, 99, 100, 109, 73, 86, 88, 76, 67, 68, 77])"

definition isDotOrParen :: "nat \<Rightarrow> bool" where
  "isDotOrParen a = (a = 46 \<or> a = 41)"

definition numberedMatchRx :: rx where
  "numberedMatchRx =
     Seq Bol
       (Seq (Grp 1
               (Alt (Seq (Plus (Cls isDigit)) (Seq (Cls isDotOrParen) (Plus (Cls isSpace))))
               (Alt (Seq (Cls isLetter) (Seq (Cls isDotOrParen) (Plus (Cls isSpace))))
                    (Seq (Plus (Cls isRoman)) (Seq (Cls isDotOrParen) (Plus (Cls isSpace)))))))
            (Grp 2 (Plus (Cls (\<lambda>a. \<not> isLineTerminator a)))))"

text \<open>\<open>/\.pdf$/i\<close>\<close>

definition pdfSuffix :: rx where
  "pdfSuffix =
     Seq (Cls (\<lambda>a. a = 46))
       (Seq (Cls (\<lambda>a. a = 112 \<or> a = 80))
         (Seq (Cls (\<lambda>a. a = 100 \<or> a = 68)) (Seq (Cls (\<lambda>a. a = 102 \<or> a = 70)) Eol)))"

text \<open>The capture \<open>n\<close> of a match, and \<open>parts[i]\<close>, which is \<open>undefined\<close> out of range.\<close>

definition group :: "(nat \<times> jsstring) list \<Rightarrow> nat \<Rightarrow> jsstring" where
  "group c n = (case map_of c n of None \<Rightarrow> [] | Some g \<Rightarrow> g)"

definition partAt :: "jsstring list \<Rightarrow> nat \<Rightarrow> jsstring option" where
  "partAt parts i = (if i < length parts then Some (parts ! i) else None)"

text \<open>\<open>if (inList) { markdown += '\n'; inList = false; }\<close>\<close>

definition endList :: "jsstring \<times> bool \<Rightarrow> jsstring \<times> bool" where
  "endList st = (if snd st then (fst st @ [10], False) else st)"

text \<open>
  The loop over the parts of a line that contains a bullet glyph.  Its state is
  \<open>markdown\<close>, \<open>inList\<close> and \<open>currentText\<close>.  \<open>flushCurrent\<close> is what the loop does with
  the text collected before a bullet, \<open>emitBullet\<close> what it does with the part after one.
\<close>

type_synonym loopState = "jsstring \<times> bool \<times> jsstring"

definition flushCurrent :: "loopState \<Rightarrow> loopState" where
  "flushCurrent st =
     (case st of (markdown, inList, currentText) \<Rightarrow>
        if currentText \<noteq> []
        then (fst (endList (markdown, inList)) @ currentText @ [10], False, [])
        else (markdown, inList, currentText))"

definition emitBullet :: "loopState \<Rightarrow> jsstring \<Rightarrow> loopState" where
  "emitBullet st nextPart =
     (case st of (markdown, inList, currentText) \<Rightarrow>
        (markdown @ u ''- '' @ trim nextPart @ [10], True, currentText))"

definition addText :: "loopState \<Rightarrow> jsstring \<Rightarrow> loopState" where
  "addText st part =
     (case st of (markdown, inList, currentText) \<Rightarrow>
        (markdown, inList, currentText @ part @ u '' ''))"

function bulletLoop :: "jsstring list \<Rightarrow> nat \<Rightarrow> loopState \<Rightarrow> loopState" where
  "bulletLoop parts i st =
     (if \<not> i < length parts then st
      else if trim (parts ! i) = [] then bulletLoop parts (i + 1) st
      else if rxTest bulletOnly (trim (parts ! i)) then
        (case partAt parts (i + 1) of
           None \<Rightarrow> bulletLoop parts (i + 1) (flushCurrent st)
         | Some nextPart \<Rightarrow>
             if nextPart \<noteq> [] \<and> trim nextPart \<noteq> []
             then bulletLoop parts (i + 2) (emitBullet (flushCurrent st) nextPart)
             else bulletLoop parts (i + 1) (flushCurrent st))
      else if (case (if i = 0 then None else partAt parts (i - 1)) of
                 None \<Rightarrow> True
               | Some prev \<Rightarrow> prev = [] \<or> \<not> rxTest bulletOnly (trim prev))
        then bulletLoop parts (i + 1) (addText st (trim (parts ! i)))
      else bulletLoop parts (i + 1) st)"
  by pat_completeness auto
termination
  by (relation "measure (\<lambda>(parts, i, st). length parts - i)") auto

text \<open>The body of \<open>lines.forEach\<close>: one line of the text, from and to \<open>markdown\<close> and \<open>inList\<close>.\<close>

definition formatLine :: "jsstring \<times> bool \<Rightarrow> jsstring \<Rightarrow> jsstring \<times> bool" where
  "formatLine st line =
     (let trimmed = trim line in
      if trimmed = [] then (fst (endList st) @ [10], snd (endList st))
      else if rxTest bulletChars trimmed then
        (case bulletLoop (splitKeep bulletChars trimmed) 0 (fst st, snd st, []) of
           (markdown, inList, currentText) \<Rightarrow>
             if trim currentText \<noteq> []
             then (fst (endList (markdown, inList)) @ trim currentText @ [10], False)
             else (markdown, inList))
      else case rxSearch bulletMatchRx 0 trimmed of
             Some (_, _, _, c) \<Rightarrow> (fst st @ u ''- '' @ group c 2 @ [10], True)
           | None \<Rightarrow>
              (case rxSearch numberedMatchRx 0 trimmed of
                 Some (_, _, _, c) \<Rightarrow> (fst st @ u ''1. '' @ group c 2 @ [10], True)
               | None \<Rightarrow> (fst (endList st) @ trimmed @ [10], False)))"

definition formatAsMarkdown :: "jsstring \<Rightarrow> jsstring \<Rightarrow> jsstring" where
  "formatAsMarkdown text fileName =
     replaceAll (Seq (rxLit [10, 10, 10, 10]) (Star (Cls (\<lambda>a. a = 10)))) (expand [Lit [10, 10]])
       (fst (foldl formatLine
               (u ''# '' @ replaceFirst pdfSuffix (expand []) fileName @ [10, 10], False)
               (splitOn 10 text)))"

section \<open>Post-processing of the markdown\<close>

text \<open>The eleven replacements and the merge loop, in the order of the source.\<close>

definition sp :: rx where
  "sp = Cls isSpace"

definition dg :: rx where
  "dg = Cls isDigit"

definition stars :: rx where
  "stars = rxLit [42, 42]"

text \<open>\<open>/\s+\d+\s*$/gm\<close> to \<open>''\<close>\<close>

definition stripEndOfLine :: "jsstring \<Rightarrow> jsstring" where
  "stripEndOfLine = replaceAll (Seq (Plus sp) (Seq (Plus dg) (Seq (Star sp) EolM))) (expand [])"

text \<open>\<open>/\s+\d+\s+/g\<close> to \<open>' '\<close>\<close>

definition stripMidLine :: "jsstring \<Rightarrow> jsstring" where
  "stripMidLine = replaceAll (Seq (Plus sp) (Seq (Plus dg) (Plus sp))) (expand [Lit (u '' '')])"

text \<open>\<open>/\.\s*\d+\s/g\<close> to \<open>'. '\<close>\<close>

definition stripAfterPeriod :: "jsstring \<Rightarrow> jsstring" where
  "stripAfterPeriod =
     replaceAll (Seq (Cls (\<lambda>a. a = 46)) (Seq (Star sp) (Seq (Plus dg) sp))) (expand [Lit (u ''. '')])"

text \<open>\<open>/\*\*([^*\n]+)\*\*\s?\*\*([^*\n]+)\*\*/g\<close> to \<open>'**$1 $2**'\<close>, at most ten times on each line\<close>

definition mergeOnce :: "jsstring \<Rightarrow> jsstring" where
  "mergeOnce =
     replaceAll
       (Seq stars (Seq (Grp 1 (Plus (Cls (\<lambda>a. a \<noteq> 42 \<and> a \<noteq> 10))))
          (Seq stars (Seq (Opt sp)
             (Seq stars (Seq (Grp 2 (Plus (Cls (\<lambda>a. a \<noteq> 42 \<and> a \<noteq> 10)))) stars))))))
       (expand [Lit (u ''**''), Ref 1, Lit (u '' ''), Ref 2, Lit (u ''**'')])"

fun mergeLoop :: "nat \<Rightarrow> jsstring \<Rightarrow> jsstring" where
  "mergeLoop 0 cleaned = cleaned"
| "mergeLoop (Suc n) cleaned =
     (if cleaned = mergeOnce cleaned then mergeOnce cleaned else mergeLoop n (mergeOnce cleaned))"

definition mergeBold :: "jsstring \<Rightarrow> jsstring" where
  "mergeBold markdown = joinWith [10] (map (mergeLoop 10) (splitOn 10 markdown))"

text \<open>\<open>/(\S)\s+\*\*/g\<close> to \<open>'$1** '\<close>\<close>

definition moveSpaceOutside :: "jsstring \<Rightarrow> jsstring" where
  "moveSpaceOutside =
     replaceAll (Seq (Grp 1 (Cls (\<lambda>a. \<not> isSpace a))) (Seq (Plus sp) stars))
                (expand [Ref 1, Lit (u ''** '')])"

text \<open>\<open>/\*\*\s*([^*]+?)\s*\*\*/g\<close> to the trimmed content between markers, or to \<open>''\<close>\<close>

definition trimBold :: "jsstring \<Rightarrow> jsstring" where
  "trimBold =
     replaceAll
       (Seq stars (Seq (Star sp) (Seq (Grp 1 (LazyPlus (Cls (\<lambda>a. a \<noteq> 42)))) (Seq (Star sp) stars))))
       (\<lambda>m c. if trim (group c 1) \<noteq> [] then u ''**'' @ trim (group c 1) @ u ''**'' else [])"

text \<open>\<open>/\*\*\*\*/g\<close> and \<open>/\*\*\s*\*\*/g\<close> to \<open>''\<close>\<close>

definition removeEmptyBold :: "jsstring \<Rightarrow> jsstring" where
  "removeEmptyBold markdown =
     replaceAll (Seq stars (Seq (Star sp) stars)) (expand [])
       (replaceAll (rxLit [42, 42, 42, 42]) (expand []) markdown)"

text \<open>\<open>/([^\s\n*])(\*\*[^\s*])/g\<close> to \<open>'$1 $2'\<close>\<close>

definition spaceBeforeOpening :: "jsstring \<Rightarrow> jsstring" where
  "spaceBeforeOpening =
     replaceAll
       (Seq (Grp 1 (Cls (\<lambda>a. \<not> isSpace a \<and> a \<noteq> 10 \<and> a \<noteq> 42)))
            (Grp 2 (Seq stars (Cls (\<lambda>a. \<not> isSpace a \<and> a \<noteq> 42)))))
       (expand [Ref 1, Lit (u '' ''), Ref 2])"

text \<open>\<open>/([^\s*]\*\*)([^\s*.,;:!?)\]\n])/g\<close> to \<open>'$1 $2'\<close>\<close>

definition spaceAfterClosing :: "jsstring \<Rightarrow> jsstring" where
  "spaceAfterClosing =
     replaceAll
       (Seq (Grp 1 (Seq (Cls (\<lambda>a. \<not> isSpace a \<and> a \<noteq> 42)) stars))
            (Grp 2 (Cls (\<lambda>a. \<not> isSpace a \<and> a \<notin> set [42, 46, 44, 59, 58, 33, 63, 41, 93, 10]))))
       (expand [Ref 1, Lit (u '' ''), Ref 2])"

text \<open>\<open>/  +/g\<close> to \<open>' '\<close>\<close>

definition collapseSpaces :: "jsstring \<Rightarrow> jsstring" where
  "collapseSpaces =
     replaceAll (Seq (Cls (\<lambda>a. a = 32)) (Plus (Cls (\<lambda>a. a = 32)))) (expand [Lit (u '' '')])"

definition postProcess :: "jsstring \<Rightarrow> jsstring" where
  "postProcess markdown =
     collapseSpaces (spaceAfterClosing (spaceBeforeOpening (removeEmptyBold (trimBold
       (moveSpaceOutside (mergeBold (stripAfterPeriod (stripMidLine (stripEndOfLine markdown)))))))))"

section \<open>convertPdfToMarkdown\<close>

text \<open>
  Reading the file and the pages is the work of pdf.js: it gives the pages, or it throws.
  Of what is thrown the \<open>catch\<close> block reads the \<open>message\<close>.  So a thrown value is
  \<open>null\<close> or \<open>undefined\<close>, which have no properties; or a value whose message is truthy and
  not a string; or a value whose message is a string, as for every \<open>Error\<close>, or falsy
  (\<open>Thrown None\<close>: the message is missing, or a falsy value that is not a string).
  The call ends in one of two ways: it returns a result object, or an exception reaches the
  caller (the promise of the \<open>async\<close> function is rejected).  A result object is the
  success, or the failure with a string for \<open>error\<close>, or the failure with an \<open>error\<close> that
  is not a string.
\<close>

datatype thrown = ThrownNullish | ThrownNotText | Thrown "jsstring option"

datatype conversion =
    Success jsstring jsstring nat nat
  | Failure jsstring
  | FailureNotText

datatype outcome = Returns conversion | ThrowsTypeError

text \<open>The \<open>try\<close> block.\<close>

definition tryBlock :: "jsstring \<Rightarrow> thrown + textItem list list \<Rightarrow> thrown + conversion" where
  "tryBlock fileName pdf =
     (case pdf of
        Inl e \<Rightarrow> Inl e
      | Inr pages \<Rightarrow>
          if trim (fullText pages) = [] then Inl (Thrown (Some (u ''No text content found in PDF'')))
          else Inr (Success (postProcess (formatAsMarkdown (fullText pages) fileName))
                            (replaceFirst pdfSuffix (expand [Lit (u ''.md'')]) fileName)
                            (length pages) (length pages)))"

text \<open>\<open>message || 'Failed to convert PDF to markdown'\<close>, for the message that was read.\<close>

definition errorMessage :: "jsstring option \<Rightarrow> jsstring" where
  "errorMessage message =
     (case message of
        None \<Rightarrow> u ''Failed to convert PDF to markdown''
      | Some m \<Rightarrow> if m = [] then u ''Failed to convert PDF to markdown'' else m)"

text \<open>
  The \<open>catch\<close> block.  To read \<open>error.message\<close> of \<open>null\<close> or \<open>undefined\<close> throws a
  \<open>TypeError\<close>, which nothing catches.  A message that is truthy is the \<open>error\<close> of the
  result as it is.
\<close>

definition catchBlock :: "thrown \<Rightarrow> outcome" where
  "catchBlock error =
     (case error of
        ThrownNullish \<Rightarrow> ThrowsTypeError
      | ThrownNotText \<Rightarrow> Returns FailureNotText
      | Thrown message \<Rightarrow> Returns (Failure (errorMessage message)))"

definition convertPdfToMarkdown :: "jsstring \<Rightarrow> thrown + textItem list list \<Rightarrow> outcome" where
  "convertPdfToMarkdown fileName pdf =
     (case tryBlock fileName pdf of Inl e \<Rightarrow> catchBlock e | Inr r \<Rightarrow> Returns r)"

section \<open>Notions of the specification\<close>

text \<open>
  The rounding that the specification names for the bucketing key: to the nearest integer,
  a half away from zero.
\<close>

definition roundHalfAwayFromZero :: "real \<Rightarrow> int" where
  "roundHalfAwayFromZero v = (if 0 \<le> v then \<lfloor>v + 1 / 2\<rfloor> else \<lceil>v - 1 / 2\<rceil>)"

text \<open>The distinct elements of a list in the order in which they are first seen.\<close>

fun firstSeen :: "'a list \<Rightarrow> 'a list" where
  "firstSeen [] = []"
| "firstSeen (a # as) = a # removeAll a (firstSeen as)"

text \<open>
  The order in which a table lists font names: the names that are array indices by ascending
  value, then the other names as first seen.
\<close>

definition keyOrder :: "jsstring list \<Rightarrow> jsstring list" where
  "keyOrder names =
     sort_key decimalValue (filter isArrayIndex (firstSeen names))
     @ filter (\<lambda>n. \<not> isArrayIndex n) (firstSeen names)"

text \<open>The font names of a document, run by run.\<close>

definition fontNames :: "textItem list list \<Rightarrow> jsstring list" where
  "fontNames pages = map fontNameOr (concat pages)"

section \<open>Evaluation\<close>

text \<open>The definitions that the simplifier unfolds to run the model on a concrete input.\<close>

lemmas str_defs = u_def isSpace_def isDigit_def isLineTerminator_def trim_def

lemmas rx_defs = rxTest_def replaceAll_def replaceFirst_def splitKeep_def group_def

lemmas fmt_defs = isBulletChar_def bulletChars_def bulletOnly_def bulletMatchRx_def isLetter_def
  isRoman_def isDotOrParen_def numberedMatchRx_def pdfSuffix_def partAt_def endList_def
  flushCurrent_def emitBullet_def addText_def formatLine_def formatAsMarkdown_def

lemmas page_defs = pageLines_def groupLines_def addItem_def itemsAt_def sortedYs_def lineItems_def
  jsSort_def annotate_def isBold_def isCitation_def mathRound_def fontNameOr_def toLowerCase_def
  lowerUnit_def pageText_def

lemmas font_defs = regularFont_def sortedFonts_def fontCounts_def allItems_def countFont_def
  getCount_def putCount_def inheritedKey_def objectPrototypeFunctions_def difference_def
  objectEntries_def isArrayIndex_def decimalValue_def fontNames_def

lemmas post_defs = sp_def dg_def stars_def stripEndOfLine_def stripMidLine_def stripAfterPeriod_def
  mergeOnce_def mergeBold_def moveSpaceOutside_def trimBold_def removeEmptyBold_def
  spaceBeforeOpening_def spaceAfterClosing_def collapseSpaces_def postProcess_def

lemma mergeLoop_numeral:
  "mergeLoop (numeral k) cleaned =
     (if cleaned = mergeOnce cleaned then mergeOnce cleaned
      else mergeLoop (pred_numeral k) (mergeOnce cleaned))"
  by (simp add: numeral_eq_Suc)

lemmas post_eval = post_defs str_defs rx_defs mergeLoop_numeral

section \<open>The Block Segmenter on the lines of the specification\<close>

text \<open>
  C8.  On the line \<open>"\<bullet> First item"\<close> (the bullet is U+2022) the body of the loop of
  \<open>formatAsMarkdown\<close> appends exactly one bullet item, \<open>- First item\<close> and a newline, to the
  markdown, whatever was there before, and leaves \<open>inList\<close> true.
\<close>

theorem bullet_first_item:
  "formatLine (markdown, inList) ([8226] @ u '' First item'')
     = (markdown @ u ''- First item'' @ [10], True)"
  by (simp add: str_defs rx_defs fmt_defs)

text \<open>
  C7.  On the line \<open>"Intro text \<bullet> bullet one \<bullet> bullet two"\<close>, outside a list, the loop
  appends a paragraph and two bullet items and leaves \<open>inList\<close> true.  The paragraph is the
  text collected before the first bullet as the loop collected it, \<open>"Intro text "\<close> with the
  space that \<open>currentText += part + ' '\<close> puts after every part: the flush before a bullet
  appends \<open>currentText\<close> itself, where the flush after the loop appends
  \<open>currentText.trim()\<close>.
\<close>

theorem mid_line_bullets:
  "formatLine (markdown, False)
       (u ''Intro text '' @ [8226] @ u '' bullet one '' @ [8226] @ u '' bullet two'')
     = (markdown @ u ''Intro text '' @ [10] @ u ''- bullet one'' @ [10] @ u ''- bullet two'' @ [10],
        True)"
  by (simp add: str_defs rx_defs fmt_defs)

section \<open>Sorting and tables\<close>

lemma insortBy_insort_key:
  assumes "\<And>a b. (cmp a b \<le> 0) = (k a \<le> k b)"
  shows "insortBy cmp a xs = insort_key k a xs"
  by (induction xs) (simp_all add: assms)

lemma jsSort_sort_key:
  assumes "\<And>a b. (cmp a b \<le> 0) = (k a \<le> k b)"
  shows "jsSort cmp xs = sort_key k xs"
proof -
  have "insortBy cmp = insort_key k"
    by (intro ext) (rule insortBy_insort_key [OF assms])
  then show ?thesis
    by (simp add: jsSort_def sort_key_def)
qed

lemma map_of_objSet: "map_of (objSet kvs k v) = (map_of kvs)(k \<mapsto> v)"
  by (induction kvs) (auto simp: fun_eq_iff)

lemma keys_objSet:
  "map fst (objSet kvs k v) = (if k \<in> fst ` set kvs then map fst kvs else map fst kvs @ [k])"
  by (induction kvs) (force simp: image_iff)+

lemma set_keys_objSet: "fst ` set (objSet kvs k v) = insert k (fst ` set kvs)"
proof -
  have "set (map fst (objSet kvs k v)) = insert k (set (map fst kvs))"
    unfolding keys_objSet by auto
  then show ?thesis by simp
qed

lemma distinct_objSet: "distinct (map fst kvs) \<Longrightarrow> distinct (map fst (objSet kvs k v))"
  by (simp add: keys_objSet)

section \<open>The lines of a page\<close>

lemma itemsAt_addItem:
  "itemsAt (addItem regular lines item) y =
     itemsAt lines y @ (if mathRound (transform5 item) = y then [annotate regular item] else [])"
  by (simp add: itemsAt_def addItem_def Let_def map_of_objSet)

lemma keys_addItem:
  "set (map fst (addItem regular lines item)) = insert (mathRound (transform5 item)) (set (map fst lines))"
  by (simp add: addItem_def Let_def set_keys_objSet)

lemma distinct_addItem:
  "distinct (map fst lines) \<Longrightarrow> distinct (map fst (addItem regular lines item))"
  by (simp add: addItem_def Let_def distinct_objSet)

lemma itemsAt_foldl:
  "itemsAt (foldl (addItem regular) lines items) y =
     itemsAt lines y @ map (annotate regular) (filter (\<lambda>item. mathRound (transform5 item) = y) items)"
  by (induction items arbitrary: lines) (simp_all add: itemsAt_addItem)

lemma keys_foldl:
  "set (map fst (foldl (addItem regular) lines items)) =
     set (map fst lines) \<union> (\<lambda>item. mathRound (transform5 item)) ` set items"
  by (induction items arbitrary: lines) (auto simp: keys_addItem simp del: set_map)

lemma distinct_foldl:
  "distinct (map fst lines) \<Longrightarrow> distinct (map fst (foldl (addItem regular) lines items))"
  by (induction items arbitrary: lines) (simp_all add: distinct_addItem)

lemma itemsAt_groupLines:
  "itemsAt (groupLines regular items) y =
     map (annotate regular) (filter (\<lambda>item. mathRound (transform5 item) = y) items)"
  unfolding groupLines_def itemsAt_foldl by (simp add: itemsAt_def)

lemma keys_groupLines:
  "set (map fst (groupLines regular items)) = (\<lambda>item. mathRound (transform5 item)) ` set items"
  by (simp add: groupLines_def keys_foldl del: set_map)

lemma distinct_groupLines: "distinct (map fst (groupLines regular items))"
  by (simp add: groupLines_def distinct_foldl)

lemma sortedYs_sort_key: "sortedYs lines = sort_key uminus (map fst lines)"
  unfolding sortedYs_def by (rule jsSort_sort_key) simp

lemma lineItems_sort_key: "lineItems lines y = sort_key item_x (itemsAt lines y)"
  unfolding lineItems_def by (rule jsSort_sort_key) simp

lemma pageLines_eq:
  "pageLines regular items =
     map (\<lambda>y. (y, sort_key item_x (map (annotate regular)
                   (filter (\<lambda>item. mathRound (transform5 item) = y) items))))
         (sort_key uminus (map fst (groupLines regular items)))"
  by (simp add: pageLines_def Let_def sortedYs_sort_key lineItems_sort_key itemsAt_groupLines)

lemma keys_pageLines: "map fst (pageLines regular items) = sort_key uminus (map fst (groupLines regular items))"
  by (simp add: pageLines_eq comp_def)

lemma keys_pageLines_set:
  "set (map fst (pageLines regular items)) = (\<lambda>item. mathRound (transform5 item)) ` set items"
  using keys_groupLines [of regular items] by (simp add: keys_pageLines del: set_map)

lemma keys_pageLines_desc: "sorted_wrt (>) (map fst (pageLines regular items))"
proof -
  let ?ks = "sort_key uminus (map fst (groupLines regular items))"
  have "sorted (map uminus ?ks)" by (rule sorted_sort_key)
  moreover have "distinct ?ks" by (simp add: distinct_groupLines)
  then have "distinct (map uminus ?ks)" by (simp add: distinct_map inj_on_def)
  ultimately have "sorted_wrt (<) (map uminus ?ks)"
    by (simp add: strict_sorted_iff)
  then have "sorted_wrt (>) ?ks"
    by (simp add: sorted_wrt_map)
  then show ?thesis by (simp add: keys_pageLines)
qed

lemma line_of_item:
  assumes "item \<in> set items"
  shows "(mathRound (transform5 item),
          sort_key item_x (map (annotate regular)
            (filter (\<lambda>i. mathRound (transform5 i) = mathRound (transform5 item)) items)))
         \<in> set (pageLines regular items)"
proof -
  have "mathRound (transform5 item) \<in> set (map fst (groupLines regular items))"
    using assms unfolding keys_groupLines by blast
  then show ?thesis
    unfolding pageLines_eq by auto
qed

section \<open>The Line Assembler\<close>

text \<open>
  C9.  The Lines of a page come in strictly descending order of their rounded y, and the
  items of every Line are in ascending order of their x, equal x allowed.
\<close>

theorem lines_ordered:
  "sorted_wrt (>) (map fst (pageLines regular items)) \<and>
   list_all (\<lambda>line. sorted (map item_x (snd line))) (pageLines regular items)"
proof
  show "sorted_wrt (>) (map fst (pageLines regular items))"
    by (rule keys_pageLines_desc)
  show "list_all (\<lambda>line. sorted (map item_x (snd line))) (pageLines regular items)"
    unfolding pageLines_eq by (simp add: list_all_iff)
qed

text \<open>
  C3, as the code has it.  The key of a run is \<open>Math.round(y)\<close>: the integer \<open>n\<close> with
  \<open>n - 1/2 \<le> y < n + 1/2\<close>, so that a y with fractional part one half goes to the next
  integer above, negative or not (for a negative y that is the integer of smaller absolute
  value); on \<open>y \<ge> 0\<close> this is rounding half away from zero.  Two runs of a page with the same
  rounded y are in the same Line, the one with that key, and no two Lines have the same key.
\<close>

theorem line_key_is_math_round:
  assumes "item1 \<in> set items" and "item2 \<in> set items"
    and "mathRound (transform5 item1) = mathRound (transform5 item2)"
  shows "(\<exists>l. (mathRound (transform5 item1), l) \<in> set (pageLines regular items) \<and>
              annotate regular item1 \<in> set l \<and> annotate regular item2 \<in> set l) \<and>
         distinct (map fst (pageLines regular items)) \<and>
         of_int (mathRound (transform5 item1)) - 1 / 2 \<le> transform5 item1 \<and>
         transform5 item1 < of_int (mathRound (transform5 item1)) + 1 / 2 \<and>
         (frac (transform5 item1) = 1 / 2 \<longrightarrow> mathRound (transform5 item1) = \<lceil>transform5 item1\<rceil>) \<and>
         (0 \<le> transform5 item1 \<longrightarrow> mathRound (transform5 item1) = roundHalfAwayFromZero (transform5 item1))"
proof (intro conjI)
  let ?l = "sort_key item_x (map (annotate regular)
              (filter (\<lambda>i. mathRound (transform5 i) = mathRound (transform5 item1)) items))"
  have "(mathRound (transform5 item1), ?l) \<in> set (pageLines regular items)"
    by (rule line_of_item [OF assms(1)])
  moreover have "annotate regular item1 \<in> set ?l" using assms(1) by simp
  moreover have "annotate regular item2 \<in> set ?l" using assms(2,3) by simp
  ultimately show "\<exists>l. (mathRound (transform5 item1), l) \<in> set (pageLines regular items) \<and>
      annotate regular item1 \<in> set l \<and> annotate regular item2 \<in> set l"
    by blast
  show "distinct (map fst (pageLines regular items))"
    by (simp add: keys_pageLines distinct_groupLines)
  show "of_int (mathRound (transform5 item1)) - 1 / 2 \<le> transform5 item1"
    unfolding mathRound_def by linarith
  show "transform5 item1 < of_int (mathRound (transform5 item1)) + 1 / 2"
    unfolding mathRound_def by linarith
  show "frac (transform5 item1) = 1 / 2 \<longrightarrow> mathRound (transform5 item1) = \<lceil>transform5 item1\<rceil>"
  proof
    assume h: "frac (transform5 item1) = 1 / 2"
    define n where "n = \<lfloor>transform5 item1\<rfloor>"
    have v: "transform5 item1 = of_int n + 1 / 2"
      using h by (simp add: frac_def n_def)
    have "\<lfloor>transform5 item1 + 1 / 2\<rfloor> = n + 1"
      by (rule floor_unique) (simp_all add: v)
    moreover have "\<lceil>transform5 item1\<rceil> = n + 1"
      by (rule ceiling_unique) (simp_all add: v)
    ultimately show "mathRound (transform5 item1) = \<lceil>transform5 item1\<rceil>"
      by (simp add: mathRound_def)
  qed
  show "0 \<le> transform5 item1 \<longrightarrow> mathRound (transform5 item1) = roundHalfAwayFromZero (transform5 item1)"
    by (simp add: mathRound_def roundHalfAwayFromZero_def)
qed

text \<open>
  The theorem at two runs with y = 10.2 and y = 9.8: both are in the Line with key 10.
\<close>

theorem line_key_is_math_round_witness:
  "(\<exists>l. (10, l) \<in> set (pageLines None
            [\<lparr>str = u ''a'', fontName = None, transform0 = 12, transform4 = 0, transform5 = 51 / 5\<rparr>,
             \<lparr>str = u ''b'', fontName = None, transform0 = 12, transform4 = 7, transform5 = 49 / 5\<rparr>]) \<and>
        annotate None \<lparr>str = u ''a'', fontName = None, transform0 = 12, transform4 = 0, transform5 = 51 / 5\<rparr> \<in> set l \<and>
        annotate None \<lparr>str = u ''b'', fontName = None, transform0 = 12, transform4 = 7, transform5 = 49 / 5\<rparr> \<in> set l) \<and>
   mathRound (51 / 5) = 10 \<and> mathRound (49 / 5) = 10"
  using line_key_is_math_round
    [of "\<lparr>str = u ''a'', fontName = None, transform0 = 12, transform4 = 0, transform5 = 51 / 5\<rparr>"
        "[\<lparr>str = u ''a'', fontName = None, transform0 = 12, transform4 = 0, transform5 = 51 / 5\<rparr>,
          \<lparr>str = u ''b'', fontName = None, transform0 = 12, transform4 = 7, transform5 = 49 / 5\<rparr>]"
        "\<lparr>str = u ''b'', fontName = None, transform0 = 12, transform4 = 7, transform5 = 49 / 5\<rparr>"
        None]
  by (simp add: mathRound_def)

text \<open>
  C3, as the specification has it, fails at y = -2.5: the key of the Line is -2, where
  rounding half away from zero gives -3.
\<close>

theorem round_half_away_counterexample:
  "map fst (pageLines None
      [\<lparr>str = u ''a'', fontName = None, transform0 = 12, transform4 = 0, transform5 = - 5 / 2\<rparr>]) = [- 2] \<and>
   roundHalfAwayFromZero (- 5 / 2) = - 3"
  by (simp add: page_defs roundHalfAwayFromZero_def)

section \<open>The table of font counts\<close>

lemma set_firstSeen: "set (firstSeen xs) = set xs"
  by (induction xs) auto

lemma distinct_firstSeen: "distinct (firstSeen xs)"
  by (induction xs) (simp_all add: distinct_removeAll set_firstSeen)

lemma firstSeen_snoc:
  "firstSeen (xs @ [x]) = (if x \<in> set xs then firstSeen xs else firstSeen xs @ [x])"
  by (induction xs) (auto simp: set_firstSeen)

lemma filter_firstSeen: "filter P (firstSeen xs) = firstSeen (filter P xs)"
proof (induction xs)
  case Nil
  then show ?case by simp
next
  case (Cons a xs)
  have "filter P (removeAll a (firstSeen xs)) = removeAll a (filter P (firstSeen xs))"
    by (simp add: removeAll_filter_not_eq conj_commute)
  with Cons show ?case
    by (simp add: removeAll_filter_not_eq) (metis (mono_tags, lifting) filter_cong)
qed

lemma hd_firstSeen: "hd (firstSeen xs) = hd xs"
  by (cases xs) simp_all

lemma count_list_snoc: "count_list (xs @ [x]) y = count_list xs y + (if x = y then 1 else 0)"
  by (induction xs) simp_all

lemma map_of_table:
  "map_of (map (\<lambda>k. (k, f k)) xs) n = (if n \<in> set xs then Some (f n) else None)"
  by (induction xs) simp_all

lemma objSet_table_new:
  "n \<notin> set xs \<Longrightarrow> objSet (map (\<lambda>k. (k, f k)) xs) n v = map (\<lambda>k. (k, f k)) xs @ [(n, v)]"
  by (induction xs) auto

lemma objSet_table_old:
  "n \<in> set xs \<Longrightarrow> distinct xs \<Longrightarrow>
   objSet (map (\<lambda>k. (k, f k)) xs) n v = map (\<lambda>k. (k, if k = n then v else f k)) xs"
  by (induction xs) auto

lemma objSet_snoc_same: "n \<notin> fst ` set kvs \<Longrightarrow> objSet (kvs @ [(n, v)]) n w = kvs @ [(n, w)]"
  by (induction kvs) auto

lemma countFont_table:
  assumes "\<not> inheritedKey n"
  shows "countFont (map (\<lambda>k. (k, Num (count_list ns k))) (firstSeen ns)) (n, z) =
           map (\<lambda>k. (k, Num (count_list (ns @ [n]) k))) (firstSeen (ns @ [n]))"
proof (cases "n \<in> set ns")
  case True
  let ?t = "map (\<lambda>k. (k, Num (count_list ns k))) (firstSeen ns)"
  have plain: "n \<noteq> u ''__proto__''"
    using assms by (auto simp: inheritedKey_def)
  have pos: "count_list ns n \<noteq> 0"
    using True by (simp add: count_list_0_iff)
  have own: "getCount ?t n = Own (Num (count_list ns n))"
    using True by (simp add: getCount_def map_of_table set_firstSeen)
  have "countFont ?t (n, z) = objSet ?t n (Num (Suc (count_list ns n)))"
    using pos plain by (simp add: countFont_def Let_def own putCount_def)
  also have "\<dots> = map (\<lambda>k. (k, if k = n then Num (Suc (count_list ns n)) else Num (count_list ns k)))
                      (firstSeen ns)"
    using True by (simp add: objSet_table_old set_firstSeen distinct_firstSeen)
  also have "\<dots> = map (\<lambda>k. (k, Num (count_list (ns @ [n]) k))) (firstSeen (ns @ [n]))"
    using True by (simp add: firstSeen_snoc count_list_snoc)
  finally show ?thesis .
next
  case False
  let ?t = "map (\<lambda>k. (k, Num (count_list ns k))) (firstSeen ns)"
  have plain: "n \<noteq> u ''__proto__''"
    using assms by (auto simp: inheritedKey_def)
  have zero: "count_list ns n = 0"
    using False by (simp add: count_list_0_iff)
  have new: "n \<notin> fst ` set ?t"
    using False by (auto simp: set_firstSeen)
  have none: "getCount ?t n = Undefined"
    using False assms by (simp add: getCount_def map_of_table set_firstSeen)
  have fc1: "objSet ?t n (Num 0) = ?t @ [(n, Num 0)]"
    using False by (simp add: objSet_table_new set_firstSeen)
  have look: "getCount (?t @ [(n, Num 0)]) n = Own (Num 0)"
    using False by (simp add: getCount_def map_of_table set_firstSeen map_add_def)
  have "countFont ?t (n, z) = ?t @ [(n, Num (Suc 0))]"
    using plain
    by (simp add: countFont_def Let_def none putCount_def fc1 look objSet_snoc_same [OF new])
  moreover have "map (\<lambda>k. (k, Num (count_list (ns @ [n]) k))) (firstSeen (ns @ [n])) = ?t @ [(n, Num (Suc 0))]"
    using False zero by (auto simp: firstSeen_snoc count_list_snoc set_firstSeen)
  ultimately show ?thesis by simp
qed

lemma foldl_countFont:
  assumes "\<forall>n\<in>set (map fst items). \<not> inheritedKey n"
  shows "foldl countFont [] items =
           map (\<lambda>k. (k, Num (count_list (map fst items) k))) (firstSeen (map fst items))"
  using assms
proof (induction items rule: rev_induct)
  case Nil
  then show ?case by simp
next
  case (snoc item items)
  obtain n z where item: "item = (n, z)" by (cases item)
  from snoc.prems have "\<not> inheritedKey n" and "\<forall>n\<in>set (map fst items). \<not> inheritedKey n"
    by (simp_all add: item)
  with snoc.IH show ?case
    by (simp add: item countFont_table)
qed

lemma fontCounts_eq:
  assumes "\<forall>n\<in>set (fontNames pages). \<not> inheritedKey n"
  shows "fontCounts pages =
           map (\<lambda>k. (k, Num (count_list (fontNames pages) k))) (firstSeen (fontNames pages))"
proof -
  have names: "map fst (allItems pages) = fontNames pages"
    by (simp add: allItems_def fontNames_def comp_def)
  with assms have "\<forall>n\<in>set (map fst (allItems pages)). \<not> inheritedKey n"
    by simp
  from foldl_countFont [OF this] names show ?thesis
    by (simp add: fontCounts_def)
qed

lemma insortBy_map:
  "insortBy cmp (g a) (map g ys) = map g (insortBy (\<lambda>a b. cmp (g a) (g b)) a ys)"
  by (induction ys) simp_all

lemma jsSort_map: "jsSort cmp (map g ys) = map g (jsSort (\<lambda>a b. cmp (g a) (g b)) ys)"
  unfolding jsSort_def by (induction ys) (simp_all add: insortBy_map)

lemma insort_key_map:
  "insort_key h (g a) (map g ys) = map g (insort_key (\<lambda>y. h (g y)) a ys)"
  by (induction ys) simp_all

lemma sort_key_map: "sort_key h (map g ys) = map g (sort_key (\<lambda>y. h (g y)) ys)"
  by (induction ys) (simp_all add: insort_key_map)

lemma objectEntries_table:
  "objectEntries (map (\<lambda>k. (k, f k)) xs) = map (\<lambda>k. (k, f k)) (sort_key decimalValue (filter isArrayIndex xs) @ filter (\<lambda>n. \<not> isArrayIndex n) xs)"
proof -
  have "jsSort (\<lambda>a b. real (decimalValue (fst a)) - real (decimalValue (fst b))) ys
          = sort_key (\<lambda>e. decimalValue (fst e)) ys" for ys :: "(jsstring \<times> 'a) list"
    by (rule jsSort_sort_key) simp
  then show ?thesis
    by (simp add: objectEntries_def filter_map comp_def sort_key_map)
qed

lemma hd_sort_key:
  assumes "xs \<noteq> []"
  shows "hd (sort_key k xs) \<in> set xs \<and> (\<forall>x\<in>set xs. k (hd (sort_key k xs)) \<le> k x) \<and>
         hd (filter (\<lambda>x. k x = k (hd (sort_key k xs))) xs) = hd (sort_key k xs)"
proof -
  obtain h t where ht: "sort_key k xs = h # t"
    using assms by (cases "sort_key k xs") (auto dest: arg_cong [where f = length])
  have "set (h # t) = set xs" unfolding ht [symmetric] by simp
  then have mem: "h \<in> set xs" by auto
  have "sorted (map k (h # t))" unfolding ht [symmetric] by (rule sorted_sort_key)
  then have "\<forall>x\<in>set (h # t). k h \<le> k x" by auto
  then have least: "\<forall>x\<in>set xs. k h \<le> k x" using \<open>set (h # t) = set xs\<close> by blast
  have "filter (\<lambda>x. k x = k h) xs = filter (\<lambda>x. k x = k h) (sort_key k xs)"
    by (rule sort_key_stable [symmetric])
  then have "hd (filter (\<lambda>x. k x = k h) xs) = h" by (simp add: ht)
  with mem least show ?thesis by (simp add: ht)
qed

lemma sortedFonts_eq:
  assumes "\<forall>n\<in>set (fontNames pages). \<not> inheritedKey n"
  shows "sortedFonts pages =
     map (\<lambda>k. (k, Num (count_list (fontNames pages) k)))
       (sort_key (\<lambda>n. - int (count_list (fontNames pages) n)) (keyOrder (fontNames pages)))"
proof -
  let ?c = "count_list (fontNames pages)"
  have sort: "jsSort (\<lambda>a b. real (?c b) - real (?c a)) ys = sort_key (\<lambda>n. - int (?c n)) ys"
    for ys :: "jsstring list"
    by (rule jsSort_sort_key) simp
  have entries: "objectEntries (fontCounts pages) = map (\<lambda>k. (k, Num (?c k))) (keyOrder (fontNames pages))"
    by (simp only: fontCounts_eq [OF assms] objectEntries_table keyOrder_def)
  show ?thesis
    unfolding sortedFonts_def entries jsSort_map
    by (simp add: difference_def sort)
qed

lemma set_keyOrder: "set (keyOrder names) = set names"
  by (auto simp: keyOrder_def set_firstSeen)

lemma regularFont_eq:
  assumes "\<forall>n\<in>set (fontNames pages). \<not> inheritedKey n"
  shows "regularFont pages =
     (if fontNames pages = [] then None
      else Some (hd (sort_key (\<lambda>n. - int (count_list (fontNames pages) n)) (keyOrder (fontNames pages)))))"
proof (cases "fontNames pages = []")
  case True
  then show ?thesis
    by (simp add: regularFont_def sortedFonts_eq [OF assms] keyOrder_def)
next
  case False
  then have "set (keyOrder (fontNames pages)) \<noteq> {}" by (simp add: set_keyOrder)
  then have "sort_key (\<lambda>n. - int (count_list (fontNames pages) n)) (keyOrder (fontNames pages)) \<noteq> []"
    by (metis set_empty set_sort)
  then show ?thesis
    using False by (auto simp: regularFont_def sortedFonts_eq [OF assms] hd_map split: list.splits)
qed

section \<open>The Font Classifier\<close>

text \<open>
  C5, as the code has it.  For a document with at least one run, and with no font name that
  names a member of \<open>Object.prototype\<close>, \<open>regularFont\<close> is a font name of the document whose
  count is maximal, and among the names of maximal count it is the first in the order in
  which \<open>Object.entries\<close> lists the table: the names that are array indices by ascending
  value, then the other names as first seen.  Where no font name is an array index, that is
  the name of maximal count that is seen first.
\<close>

theorem regular_font_most_frequent:
  assumes "concat pages \<noteq> []"
    and "list_all (\<lambda>n. \<not> inheritedKey n) (fontNames pages)"
  shows "\<exists>f. regularFont pages = Some f \<and> f \<in> set (fontNames pages) \<and>
           (\<forall>g. count_list (fontNames pages) g \<le> count_list (fontNames pages) f) \<and>
           hd (filter (\<lambda>g. count_list (fontNames pages) g = count_list (fontNames pages) f)
                      (keyOrder (fontNames pages))) = f \<and>
           (list_all (\<lambda>n. \<not> isArrayIndex n) (fontNames pages) \<longrightarrow>
              hd (filter (\<lambda>g. count_list (fontNames pages) g = count_list (fontNames pages) f)
                         (fontNames pages)) = f)"
proof -
  let ?names = "fontNames pages"
  let ?k = "\<lambda>n. - int (count_list ?names n)"
  let ?f = "hd (sort_key ?k (keyOrder ?names))"
  have plain: "\<forall>n\<in>set ?names. \<not> inheritedKey n"
    using assms(2) by (simp add: list_all_iff)
  have ne: "?names \<noteq> []" using assms(1) by (simp add: fontNames_def)
  then have ne': "keyOrder ?names \<noteq> []"
    using set_keyOrder [of ?names] by (metis set_empty)
  note h = hd_sort_key [OF ne', of ?k]
  have reg: "regularFont pages = Some ?f" using ne by (simp add: regularFont_eq [OF plain])
  have mem: "?f \<in> set ?names" using h by (simp add: set_keyOrder)
  have max: "count_list ?names g \<le> count_list ?names ?f" for g
  proof (cases "g \<in> set ?names")
    case True
    then have "?k ?f \<le> ?k g" using h by (simp add: set_keyOrder)
    then show ?thesis by simp
  next
    case False
    then show ?thesis by (simp add: count_list_0_iff)
  qed
  have tie: "hd (filter (\<lambda>g. count_list ?names g = count_list ?names ?f) (keyOrder ?names)) = ?f"
    using h by simp
  have seen: "hd (filter (\<lambda>g. count_list ?names g = count_list ?names ?f) ?names) = ?f"
    if "list_all (\<lambda>n. \<not> isArrayIndex n) ?names"
  proof -
    have "filter isArrayIndex (firstSeen ?names) = []"
      using that by (simp add: filter_empty_conv set_firstSeen list_all_iff)
    moreover have "filter (\<lambda>n. \<not> isArrayIndex n) (firstSeen ?names) = firstSeen ?names"
      using that by (simp add: filter_id_conv set_firstSeen list_all_iff)
    ultimately have "keyOrder ?names = firstSeen ?names"
      by (simp add: keyOrder_def)
    with tie show ?thesis
      by (simp add: filter_firstSeen hd_firstSeen)
  qed
  from reg mem max tie seen show ?thesis by blast
qed

text \<open>
  The theorem at a document of three runs in the fonts \<open>g_d0_f1\<close>, \<open>g_d0_f2\<close>, \<open>g_d0_f2\<close>.
\<close>

theorem regular_font_most_frequent_witness:
  "concat
     [[\<lparr>str = u ''a'', fontName = Some (u ''g_d0_f1''), transform0 = 12, transform4 = 0, transform5 = 0\<rparr>,
       \<lparr>str = u ''b'', fontName = Some (u ''g_d0_f2''), transform0 = 12, transform4 = 9, transform5 = 0\<rparr>,
       \<lparr>str = u ''c'', fontName = Some (u ''g_d0_f2''), transform0 = 12, transform4 = 18, transform5 = 0\<rparr>]] \<noteq> [] \<and>
   list_all (\<lambda>n. \<not> inheritedKey n) (fontNames
     [[\<lparr>str = u ''a'', fontName = Some (u ''g_d0_f1''), transform0 = 12, transform4 = 0, transform5 = 0\<rparr>,
       \<lparr>str = u ''b'', fontName = Some (u ''g_d0_f2''), transform0 = 12, transform4 = 9, transform5 = 0\<rparr>,
       \<lparr>str = u ''c'', fontName = Some (u ''g_d0_f2''), transform0 = 12, transform4 = 18, transform5 = 0\<rparr>]]) \<and>
   (\<exists>f. regularFont
     [[\<lparr>str = u ''a'', fontName = Some (u ''g_d0_f1''), transform0 = 12, transform4 = 0, transform5 = 0\<rparr>,
       \<lparr>str = u ''b'', fontName = Some (u ''g_d0_f2''), transform0 = 12, transform4 = 9, transform5 = 0\<rparr>,
       \<lparr>str = u ''c'', fontName = Some (u ''g_d0_f2''), transform0 = 12, transform4 = 18, transform5 = 0\<rparr>]] = Some f \<and>
     f \<in> set (fontNames
     [[\<lparr>str = u ''a'', fontName = Some (u ''g_d0_f1''), transform0 = 12, transform4 = 0, transform5 = 0\<rparr>,
       \<lparr>str = u ''b'', fontName = Some (u ''g_d0_f2''), transform0 = 12, transform4 = 9, transform5 = 0\<rparr>,
       \<lparr>str = u ''c'', fontName = Some (u ''g_d0_f2''), transform0 = 12, transform4 = 18, transform5 = 0\<rparr>]]) \<and>
     (\<forall>g. count_list (fontNames
     [[\<lparr>str = u ''a'', fontName = Some (u ''g_d0_f1''), transform0 = 12, transform4 = 0, transform5 = 0\<rparr>,
       \<lparr>str = u ''b'', fontName = Some (u ''g_d0_f2''), transform0 = 12, transform4 = 9, transform5 = 0\<rparr>,
       \<lparr>str = u ''c'', fontName = Some (u ''g_d0_f2''), transform0 = 12, transform4 = 18, transform5 = 0\<rparr>]]) g
       \<le> count_list (fontNames
     [[\<lparr>str = u ''a'', fontName = Some (u ''g_d0_f1''), transform0 = 12, transform4 = 0, transform5 = 0\<rparr>,
       \<lparr>str = u ''b'', fontName = Some (u ''g_d0_f2''), transform0 = 12, transform4 = 9, transform5 = 0\<rparr>,
       \<lparr>str = u ''c'', fontName = Some (u ''g_d0_f2''), transform0 = 12, transform4 = 18, transform5 = 0\<rparr>]]) f))"
proof -
  have runs: "concat
     [[\<lparr>str = u ''a'', fontName = Some (u ''g_d0_f1''), transform0 = 12, transform4 = 0, transform5 = 0\<rparr>,
       \<lparr>str = u ''b'', fontName = Some (u ''g_d0_f2''), transform0 = 12, transform4 = 9, transform5 = 0\<rparr>,
       \<lparr>str = u ''c'', fontName = Some (u ''g_d0_f2''), transform0 = 12, transform4 = 18, transform5 = 0\<rparr>]] \<noteq> []"
    by simp
  have plain: "list_all (\<lambda>n. \<not> inheritedKey n) (fontNames
     [[\<lparr>str = u ''a'', fontName = Some (u ''g_d0_f1''), transform0 = 12, transform4 = 0, transform5 = 0\<rparr>,
       \<lparr>str = u ''b'', fontName = Some (u ''g_d0_f2''), transform0 = 12, transform4 = 9, transform5 = 0\<rparr>,
       \<lparr>str = u ''c'', fontName = Some (u ''g_d0_f2''), transform0 = 12, transform4 = 18, transform5 = 0\<rparr>]])"
    by (simp add: fontNames_def fontNameOr_def inheritedKey_def objectPrototypeFunctions_def u_def)
  from runs plain regular_font_most_frequent [OF runs plain] show ?thesis
    by blast
qed

text \<open>
  C5, as the specification has it, fails in three ways.  Of two runs, the first in the font
  \<open>2\<close> and the second in the font \<open>1\<close>, each font has the count 1 and \<open>2\<close> is seen
  first, but \<open>Object.entries\<close> lists \<open>1\<close> first and \<open>regularFont\<close> is \<open>1\<close>.  Of three
  runs in the fonts \<open>__proto__\<close>, \<open>__proto__\<close>, \<open>f\<close> the first two are never counted, and
  \<open>regularFont\<close> is \<open>f\<close>, which is not the most frequent.  Of four runs in the fonts
  \<open>constructor\<close>, \<open>constructor\<close>, \<open>f\<close>, \<open>f\<close> the first makes the count \<open>NaN\<close> and the
  second starts it again, so that \<open>regularFont\<close> is \<open>f\<close>, which is not seen first.
\<close>

theorem first_seen_tie_break_counterexample:
  "fontNames
     [[\<lparr>str = u ''a'', fontName = Some (u ''2''), transform0 = 12, transform4 = 0, transform5 = 0\<rparr>,
      \<lparr>str = u ''b'', fontName = Some (u ''1''), transform0 = 12, transform4 = 9, transform5 = 0\<rparr>]]
     = [u ''2'', u ''1''] \<and>
   regularFont
     [[\<lparr>str = u ''a'', fontName = Some (u ''2''), transform0 = 12, transform4 = 0, transform5 = 0\<rparr>,
      \<lparr>str = u ''b'', fontName = Some (u ''1''), transform0 = 12, transform4 = 9, transform5 = 0\<rparr>]]
     = Some (u ''1'') \<and>
   regularFont
     [[\<lparr>str = u ''a'', fontName = Some (u ''__proto__''), transform0 = 12, transform4 = 0, transform5 = 0\<rparr>,
      \<lparr>str = u ''b'', fontName = Some (u ''__proto__''), transform0 = 12, transform4 = 9, transform5 = 0\<rparr>,
      \<lparr>str = u ''c'', fontName = Some (u ''f''), transform0 = 12, transform4 = 18, transform5 = 0\<rparr>]]
     = Some (u ''f'') \<and>
   regularFont
     [[\<lparr>str = u ''a'', fontName = Some (u ''constructor''), transform0 = 12, transform4 = 0, transform5 = 0\<rparr>,
      \<lparr>str = u ''b'', fontName = Some (u ''constructor''), transform0 = 12, transform4 = 9, transform5 = 0\<rparr>,
      \<lparr>str = u ''c'', fontName = Some (u ''f''), transform0 = 12, transform4 = 18, transform5 = 0\<rparr>,
      \<lparr>str = u ''d'', fontName = Some (u ''f''), transform0 = 12, transform4 = 27, transform5 = 0\<rparr>]]
     = Some (u ''f'')"
proof (intro conjI)
  show "fontNames
     [[\<lparr>str = u ''a'', fontName = Some (u ''2''), transform0 = 12, transform4 = 0, transform5 = 0\<rparr>,
      \<lparr>str = u ''b'', fontName = Some (u ''1''), transform0 = 12, transform4 = 9, transform5 = 0\<rparr>]]
     = [u ''2'', u ''1'']"
    by (simp add: fontNames_def fontNameOr_def)
  show "regularFont
     [[\<lparr>str = u ''a'', fontName = Some (u ''2''), transform0 = 12, transform4 = 0, transform5 = 0\<rparr>,
      \<lparr>str = u ''b'', fontName = Some (u ''1''), transform0 = 12, transform4 = 9, transform5 = 0\<rparr>]]
     = Some (u ''1'')"
    by (simp add: font_defs fontNameOr_def jsSort_def str_defs)
  show "regularFont
     [[\<lparr>str = u ''a'', fontName = Some (u ''__proto__''), transform0 = 12, transform4 = 0, transform5 = 0\<rparr>,
      \<lparr>str = u ''b'', fontName = Some (u ''__proto__''), transform0 = 12, transform4 = 9, transform5 = 0\<rparr>,
      \<lparr>str = u ''c'', fontName = Some (u ''f''), transform0 = 12, transform4 = 18, transform5 = 0\<rparr>]]
     = Some (u ''f'')"
    by (simp add: font_defs fontNameOr_def jsSort_def str_defs)
  show "regularFont
     [[\<lparr>str = u ''a'', fontName = Some (u ''constructor''), transform0 = 12, transform4 = 0, transform5 = 0\<rparr>,
      \<lparr>str = u ''b'', fontName = Some (u ''constructor''), transform0 = 12, transform4 = 9, transform5 = 0\<rparr>,
      \<lparr>str = u ''c'', fontName = Some (u ''f''), transform0 = 12, transform4 = 18, transform5 = 0\<rparr>,
      \<lparr>str = u ''d'', fontName = Some (u ''f''), transform0 = 12, transform4 = 27, transform5 = 0\<rparr>]]
     = Some (u ''f'')"
    by (simp add: font_defs fontNameOr_def jsSort_def str_defs)
qed

section \<open>Blank text\<close>

lemma dropWhile_isSpace_Nil: "dropWhile isSpace s = [] \<longleftrightarrow> (\<forall>a\<in>set s. isSpace a)"
  by (induction s) simp_all

lemma trim_Nil_iff: "trim s = [] \<longleftrightarrow> (\<forall>a\<in>set s. isSpace a)"
proof
  assume "trim s = []"
  then have "dropWhile isSpace (rev (dropWhile isSpace s)) = []"
    by (simp add: trim_def)
  then have all: "\<forall>a\<in>set (dropWhile isSpace s). isSpace a"
    unfolding dropWhile_isSpace_Nil by simp
  have "dropWhile isSpace s = []"
  proof (rule ccontr)
    assume ne: "dropWhile isSpace s \<noteq> []"
    then have "\<not> isSpace (hd (dropWhile isSpace s))"
      by (rule hd_dropWhile)
    moreover have "hd (dropWhile isSpace s) \<in> set (dropWhile isSpace s)"
      using ne by (rule hd_in_set)
    ultimately show False
      using all by blast
  qed
  then show "\<forall>a\<in>set s. isSpace a"
    unfolding dropWhile_isSpace_Nil .
next
  assume "\<forall>a\<in>set s. isSpace a"
  then have e: "dropWhile isSpace s = []"
    unfolding dropWhile_isSpace_Nil .
  show "trim s = []"
    by (simp only: trim_def e rev.simps dropWhile.simps)
qed
lemma trim_Nil: "trim [] = []"
  by (simp add: trim_def)

lemma pageText_Nil: "pageText regular [] = []"
  by (simp add: page_defs)

lemma fullTextFrom_blank:
  assumes "\<forall>items\<in>set pages. trim (pageText regular items) = []"
  shows "trim (fullTextFrom regular pageNum pages) = []"
  using assms
proof (induction pages arbitrary: pageNum)
  case Nil
  then show ?case by (simp add: trim_def)
next
  case (Cons items pages)
  then have "trim (pageText regular items) = []" and "trim (fullTextFrom regular (Suc pageNum) pages) = []"
    by simp_all
  then show ?case
    by (auto simp: trim_Nil_iff isSpace_def)
qed



lemma blank_document_fails_lemma:
  assumes "\<forall>items\<in>set pages. trim (pageText (regularFont pages) items) = []"
  shows "convertPdfToMarkdown fileName (Inr pages)
           = Returns (Failure (u ''No text content found in PDF''))"
proof -
  have "trim (fullText pages) = []"
    unfolding fullText_def by (rule fullTextFrom_blank [OF assms])
  then show ?thesis
    by (simp add: convertPdfToMarkdown_def tryBlock_def catchBlock_def errorMessage_def u_def)
qed

section \<open>The result of a conversion\<close>

text \<open>
  C6.  If the text of every page is blank, the conversion ends with the failure result that
  carries the message \<open>No text content found in PDF\<close>: the text of all pages is built, then
  trimmed and found empty, and what the \<open>try\<close> block throws, the \<open>catch\<close> turns into the
  result.  No success with an empty document is returned.
\<close>

theorem blank_document_fails:
  assumes "\<forall>items\<in>set pages. trim (pageText (regularFont pages) items) = []"
  shows "convertPdfToMarkdown fileName (Inr pages)
           = Returns (Failure (u ''No text content found in PDF''))"
  using assms by (rule blank_document_fails_lemma)

text \<open>The theorem at a document of two pages: one run of two spaces, and no run.\<close>

theorem blank_document_fails_witness:
  "trim (pageText (regularFont [[\<lparr>str = u ''  '', fontName = Some (u ''g_d0_f1''), transform0 = 12, transform4 = 0, transform5 = 700\<rparr>], []])
               [\<lparr>str = u ''  '', fontName = Some (u ''g_d0_f1''), transform0 = 12, transform4 = 0, transform5 = 700\<rparr>]) = [] \<and>
   trim (pageText (regularFont [[\<lparr>str = u ''  '', fontName = Some (u ''g_d0_f1''), transform0 = 12, transform4 = 0, transform5 = 700\<rparr>], []])
               []) = [] \<and>
   convertPdfToMarkdown (u ''a.pdf'')
      (Inr [[\<lparr>str = u ''  '', fontName = Some (u ''g_d0_f1''), transform0 = 12, transform4 = 0, transform5 = 700\<rparr>], []])
     = Returns (Failure (u ''No text content found in PDF''))"
proof -
  let ?item = "\<lparr>str = u ''  '', fontName = Some (u ''g_d0_f1''), transform0 = 12, transform4 = 0, transform5 = 700\<rparr>"
  have first: "trim (pageText (regularFont [[?item], []]) [?item]) = []"
    by (simp add: font_defs page_defs str_defs rx_defs)
  have second: "trim (pageText (regularFont [[?item], []]) []) = []"
    by (simp add: pageText_Nil trim_Nil)
  have blank: "\<forall>items\<in>set [[?item], []]. trim (pageText (regularFont [[?item], []]) items) = []"
    using first second by simp
  from first second blank_document_fails [OF blank, of "u ''a.pdf''"] show ?thesis
    by blast
qed







section \<open>Rendering and citations\<close>

lemma page_keys_unique:
  "sort_key uminus (map fst (groupLines regular items))
     = sort_key uminus (remdups (map (\<lambda>item. mathRound (transform5 item)) items))"
proof -
  let ?xs = "sort_key uminus (map fst (groupLines regular items))"
  let ?ys = "sort_key uminus (remdups (map (\<lambda>item. mathRound (transform5 item)) items))"
  have sx: "sorted (map uminus ?xs)" and sy: "sorted (map uminus ?ys)"
    by (rule sorted_sort_key)+
  have "distinct ?xs" and "distinct ?ys"
    by (simp_all add: distinct_groupLines)
  then have dx: "distinct (map uminus ?xs)" and dy: "distinct (map uminus ?ys)"
    by (simp_all add: distinct_map inj_on_def)
  have eq: "set (map uminus ?xs) = set (map uminus ?ys)"
    using keys_groupLines [of regular items] by simp
  have "map uminus ?xs = map uminus ?ys"
    by (rule sorted_distinct_set_unique [OF sx dx sy dy eq])
  then show ?thesis
    by (simp add: inj_map_eq_map inj_on_def)
qed

lemma lineText_citations: "lineText l = lineText (filter (\<lambda>item. \<not> item_isCitation item) l)"
  by (induction l) simp_all

lemma lineText_all_citations: "list_all item_isCitation l \<Longrightarrow> lineText l = []"
  by (induction l) simp_all

lemma pageTextOf_citation_lines:
  "pageTextOf ls = pageTextOf (filter (\<lambda>l. \<not> list_all item_isCitation l) ls)"
  by (induction ls) (simp_all add: lineText_all_citations trim_Nil)

section \<open>Citations\<close>

text \<open>
  C2, as the code has it.  The Lines of a page are formed from the coordinates alone: their
  keys are the distinct rounded y of the page in descending order, and the Line of a key
  holds every run of that rounded y, flagged as citation or not, in ascending x.  The flag
  is read when a Line is rendered: a flagged run adds nothing to the text of its Line.  But
  a Line whose text is blank is not put into the text of the page, so a Line all of whose
  runs are flagged is left out of the page.
\<close>

theorem citations_filtered_at_render:
  "pageLines regular items =
     map (\<lambda>y. (y, sort_key item_x (map (annotate regular)
                   (filter (\<lambda>item. mathRound (transform5 item) = y) items))))
         (sort_key uminus (remdups (map (\<lambda>item. mathRound (transform5 item)) items))) \<and>
   lineText l = lineText (filter (\<lambda>item. \<not> item_isCitation item) l) \<and>
   pageText regular items =
     pageTextOf (filter (\<lambda>l. \<not> list_all item_isCitation l) (map snd (pageLines regular items)))"
proof (intro conjI)
  show "pageLines regular items =
     map (\<lambda>y. (y, sort_key item_x (map (annotate regular)
                   (filter (\<lambda>item. mathRound (transform5 item) = y) items))))
         (sort_key uminus (remdups (map (\<lambda>item. mathRound (transform5 item)) items)))"
    unfolding pageLines_eq page_keys_unique ..
  show "lineText l = lineText (filter (\<lambda>item. \<not> item_isCitation item) l)"
    by (rule lineText_citations)
  show "pageText regular items =
     pageTextOf (filter (\<lambda>l. \<not> list_all item_isCitation l) (map snd (pageLines regular items)))"
    unfolding pageText_def by (rule pageTextOf_citation_lines)
qed

text \<open>
  C2, as the specification has it, fails for a page whose only run is the text \<open>1\<close> in the
  font size 8.  The run is flagged and makes a Line of its own, with the key 700, and the
  text of the page is empty: the Line is not in the output.  The same run in the font size
  12 is not flagged, and its Line is in the output.
\<close>

theorem citation_line_dropped_counterexample:
  "pageLines None [\<lparr>str = u ''1'', fontName = None, transform0 = 8, transform4 = 72, transform5 = 700\<rparr>]
     = [(700, [\<lparr>item_text = u ''1'', item_x = 72, item_isBold = False, item_isCitation = True,
                 item_fontSize = 8, item_fontName = []\<rparr>])] \<and>
   pageText None [\<lparr>str = u ''1'', fontName = None, transform0 = 8, transform4 = 72, transform5 = 700\<rparr>]
     = [] \<and>
   pageText None [\<lparr>str = u ''1'', fontName = None, transform0 = 12, transform4 = 72, transform5 = 700\<rparr>]
     = u ''1'' @ [10]"
  by (simp add: page_defs str_defs rx_defs)

section \<open>The collapse of spaces\<close>

lemma rxm_Star_Cls_step:
  "rxm (Star (Cls p)) (i, x # s, c) =
     (if p x then rxm (Star (Cls p)) (Suc i, s, c) else []) @ [(i, x # s, c)]"
  by (subst rxm.simps(5)) (simp del: rxm.simps(5))

lemma rxm_Star_Cls:
  "\<exists>t. rxm (Star (Cls p)) (i, s, c) = (i + length (takeWhile p s), dropWhile p s, c) # t"
proof (induction s arbitrary: i)
  case Nil
  show ?case by (subst rxm.simps(5)) (simp del: rxm.simps(5))
next
  case (Cons x s)
  show ?case
  proof (cases "p x")
    case True
    from Cons [of "Suc i"] obtain t where
      "rxm (Star (Cls p)) (Suc i, s, c) = (Suc i + length (takeWhile p s), dropWhile p s, c) # t"
      by blast
    with True show ?thesis
      by (simp add: rxm_Star_Cls_step del: rxm.simps(5))
  next
    case False
    then show ?thesis
      by (simp add: rxm_Star_Cls_step del: rxm.simps(5))
  qed
qed

lemma rxm_twoPlus_match:
  assumes "p x" and "p y"
  shows "\<exists>t. rxm (Seq (Cls p) (Plus (Cls p))) (i, x # y # s, []) =
           (i + 2 + length (takeWhile p s), dropWhile p s, []) # t"
proof -
  from rxm_Star_Cls [of p "Suc (Suc i)" s "[]"] obtain t where
    "rxm (Star (Cls p)) (Suc (Suc i), s, []) = (Suc (Suc i) + length (takeWhile p s), dropWhile p s, []) # t"
    by blast
  with assms show ?thesis
    by (simp del: rxm.simps(5))
qed

lemma rxm_twoPlus_none:
  assumes "\<not> (\<exists>x y s'. s = x # y # s' \<and> p x \<and> p y)"
  shows "rxm (Seq (Cls p) (Plus (Cls p))) (i, s, []) = []"
proof (cases s)
  case Nil
  then show ?thesis by (simp del: rxm.simps(5))
next
  case (Cons x s1)
  show ?thesis
  proof (cases s1)
    case Nil
    with Cons show ?thesis by (simp del: rxm.simps(5))
  next
    case (Cons y s')
    with \<open>s = x # s1\<close> assms have "\<not> (p x \<and> p y)" by simp
    with Cons \<open>s = x # s1\<close> show ?thesis
      by (auto simp del: rxm.simps(5))
  qed
qed

lemma replaceFrom_skip:
  "k \<le> length s \<Longrightarrow> replaceFrom r f i k s = replaceFrom r f (i + k) 0 (drop k s)"
proof (induction s arbitrary: i k)
  case Nil
  then show ?case by simp
next
  case (Cons a s)
  show ?case
  proof (cases k)
    case 0
    then show ?thesis by simp
  next
    case (Suc k')
    with Cons.prems have "k' \<le> length s" by simp
    from Cons.IH [OF this, of "Suc i"] Suc show ?thesis
      by simp
  qed
qed

lemma collapse_Nil: "replaceFrom (Seq (Cls p) (Plus (Cls p))) f i 0 [] = []"
  by (simp add: rxm_twoPlus_none del: rxm.simps)

lemma collapse_Cons:
  "replaceFrom (Seq (Cls p) (Plus (Cls p))) f i 0 (x # s) =
     (if p x \<and> s \<noteq> [] \<and> p (hd s)
      then f (takeWhile p (x # s)) [] @
           replaceFrom (Seq (Cls p) (Plus (Cls p))) f (i + length (takeWhile p (x # s))) 0 (dropWhile p s)
      else x # replaceFrom (Seq (Cls p) (Plus (Cls p))) f (Suc i) 0 s)"
proof (cases "p x \<and> s \<noteq> [] \<and> p (hd s)")
  case True
  then obtain y s' where s: "s = y # s'" and px: "p x" and py: "p y"
    by (cases s) auto
  let ?n = "length (takeWhile p s')"
  from rxm_twoPlus_match [OF px py, of i s'] obtain t where
    m: "rxm (Seq (Cls p) (Plus (Cls p))) (i, x # y # s', []) = (i + 2 + ?n, dropWhile p s', []) # t"
    by blast
  have taken: "take (2 + ?n) (x # y # s') = x # y # takeWhile p s'"
    by (simp add: takeWhile_eq_take [symmetric])
  have skip: "replaceFrom (Seq (Cls p) (Plus (Cls p))) f (Suc i) (Suc ?n) (y # s')
                = replaceFrom (Seq (Cls p) (Plus (Cls p))) f (Suc i + Suc ?n) 0 (drop (Suc ?n) (y # s'))"
    by (rule replaceFrom_skip) (simp add: length_takeWhile_le)
  have rest: "drop (Suc ?n) (y # s') = dropWhile p s'"
    by (simp add: dropWhile_eq_drop [symmetric])
  have "replaceFrom (Seq (Cls p) (Plus (Cls p))) f i 0 (x # y # s') =
          f (x # y # takeWhile p s') [] @
          replaceFrom (Seq (Cls p) (Plus (Cls p))) f (Suc i + Suc ?n) 0 (dropWhile p s')"
    using taken skip rest by (simp add: m del: rxm.simps)
  with px py show ?thesis
    by (simp add: s)
next
  case False
  then have "\<not> (\<exists>a b s'. x # s = a # b # s' \<and> p a \<and> p b)"
    by (cases s) auto
  then have "rxm (Seq (Cls p) (Plus (Cls p))) (i, x # s, []) = []"
    by (rule rxm_twoPlus_none)
  moreover have "\<not> (p x \<and> s \<noteq> [] \<and> p (hd s))"
    by (rule False)
  ultimately show ?thesis
    by (simp only: replaceFrom.simps list.case if_False less_irrefl)
qed

lemma collapse_start:
  assumes "\<And>m c. f m c = [b]" and "p b"
  shows "(replaceFrom (Seq (Cls p) (Plus (Cls p))) f i 0 s \<noteq> [] \<and>
          p (hd (replaceFrom (Seq (Cls p) (Plus (Cls p))) f i 0 s))) = (s \<noteq> [] \<and> p (hd s))"
proof (cases s)
  case Nil
  then show ?thesis by (simp add: collapse_Nil)
next
  case (Cons x s')
  then show ?thesis
    by (simp add: collapse_Cons assms del: replaceFrom.simps rxm.simps)
qed

lemma collapse_Cons_stop:
  assumes "\<not> (p x \<and> s \<noteq> [] \<and> p (hd s))"
  shows "replaceFrom (Seq (Cls p) (Plus (Cls p))) f i 0 (x # s)
           = x # replaceFrom (Seq (Cls p) (Plus (Cls p))) f (Suc i) 0 s"
proof -
  have c: "(p x \<and> s \<noteq> [] \<and> p (hd s)) = False"
    using assms by blast
  show ?thesis
    by (subst collapse_Cons) (simp only: c if_False)
qed

lemma collapse_Cons_match:
  assumes "p x \<and> s \<noteq> [] \<and> p (hd s)" and "\<And>m c. f m c = [b]"
  shows "\<exists>i'. replaceFrom (Seq (Cls p) (Plus (Cls p))) f i 0 (x # s)
           = b # replaceFrom (Seq (Cls p) (Plus (Cls p))) f i' 0 (dropWhile p s)"
proof -
  have "replaceFrom (Seq (Cls p) (Plus (Cls p))) f i 0 (x # s)
          = f (takeWhile p (x # s)) [] @
            replaceFrom (Seq (Cls p) (Plus (Cls p))) f (i + length (takeWhile p (x # s))) 0 (dropWhile p s)"
  proof -
    have c: "(p x \<and> s \<noteq> [] \<and> p (hd s)) = True"
      using assms(1) by blast
    show ?thesis
      by (subst collapse_Cons) (simp only: c if_True)
  qed
  then show ?thesis
    by (simp only: assms(2) append_Cons append_Nil) blast
qed

lemma collapse_idem:
  assumes f: "\<And>m c. f m c = [b]" and b: "p b"
  shows "replaceFrom (Seq (Cls p) (Plus (Cls p))) f j 0
           (replaceFrom (Seq (Cls p) (Plus (Cls p))) f i 0 s)
         = replaceFrom (Seq (Cls p) (Plus (Cls p))) f i 0 s"
proof (induction s arbitrary: i j rule: length_induct)
  case (1 s)
  let ?G = "replaceFrom (Seq (Cls p) (Plus (Cls p))) f"
  show ?case
  proof (cases s)
    case Nil
    then show ?thesis by (simp only: collapse_Nil)
  next
    case (Cons x s')
    show ?thesis
    proof (cases "p x \<and> s' \<noteq> [] \<and> p (hd s')")
      case True
      from collapse_Cons_match [where f = f and b = b and i = i, OF True f] obtain i' where
        first: "?G i 0 (x # s') = b # ?G i' 0 (dropWhile p s')"
        by blast
      define t where "t = dropWhile p s'"
      define out where "out = ?G i' 0 t"
      have "\<not> (t \<noteq> [] \<and> p (hd t))"
        unfolding t_def using hd_dropWhile [of p s'] by blast
      then have "\<not> (out \<noteq> [] \<and> p (hd out))"
        unfolding out_def
        using collapse_start [where f = f and b = b and p = p and i = i' and s = t, OF f b] by blast
      then have "\<not> (p b \<and> out \<noteq> [] \<and> p (hd out))"
        by blast
      then have second: "?G j 0 (b # out) = b # ?G (Suc j) 0 out"
        by (rule collapse_Cons_stop)
      have "length t < length s"
        unfolding t_def by (simp add: Cons length_dropWhile_le less_Suc_eq_le)
      with 1 have "?G (Suc j) 0 out = out"
        unfolding out_def by blast
      with first second show ?thesis
        unfolding Cons out_def t_def by simp
    next
      case False
      define out where "out = ?G (Suc i) 0 s'"
      have first: "?G i 0 (x # s') = x # out"
        unfolding out_def using False by (rule collapse_Cons_stop)
      have "\<not> (p x \<and> out \<noteq> [] \<and> p (hd out))"
        unfolding out_def
        using False collapse_start [where f = f and b = b and p = p and i = "Suc i" and s = s', OF f b]
        by blast
      then have second: "?G j 0 (x # out) = x # ?G (Suc j) 0 out"
        by (rule collapse_Cons_stop)
      have "length s' < length s"
        by (simp add: Cons)
      with 1 have "?G (Suc j) 0 out = out"
        unfolding out_def by blast
      with first second show ?thesis
        unfolding Cons by simp
    qed
  qed
qed

section \<open>The Post-Normalizer\<close>

text \<open>
  C1, as the code has it.  Of the passes of the post-processing, the last one, which
  replaces every run of two or more spaces by one space, is idempotent: applied to its own
  output it changes nothing, whatever the input.
\<close>

theorem collapse_spaces_idempotent: "collapseSpaces (collapseSpaces s) = collapseSpaces s"
  unfolding collapseSpaces_def replaceAll_def
  by (rule collapse_idem [where b = 32]) (simp_all add: u_def)

text \<open>
  C1, as the specification has it, fails.  The whole post-processing turns \<open>a 1 2\<close> into
  \<open>a 1\<close> and \<open>a 1\<close> into \<open>a\<close>, and so does its first pass alone: the pattern
  \<open>\s+\d+\s*$\<close> takes one group of digits from the end of the line at a time.  In the
  same way each of the other replacements below changes its own output: the pass over
  numbers inside a line, the pass over numbers after a period, the move of a space from
  before a marker to after it, the trimming inside markers, the removal of empty markers, and
  the insertion of a space before an opening and after a closing marker.
\<close>

theorem post_process_not_idempotent_counterexample:
  "postProcess (u ''a 1 2'') = u ''a 1'' \<and> postProcess (u ''a 1'') = u ''a'' \<and>
   stripEndOfLine (u ''a 1 2'') = u ''a 1'' \<and> stripEndOfLine (u ''a 1'') = u ''a'' \<and>
   stripMidLine (u ''a 1 2 b'') = u ''a 2 b'' \<and> stripMidLine (u ''a 2 b'') = u ''a b'' \<and>
   stripAfterPeriod (u ''.1 2 '') = u ''. 2 '' \<and> stripAfterPeriod (u ''. 2 '') = u ''. '' \<and>
   moveSpaceOutside (u ''a ** **'') = u ''a**  **'' \<and> moveSpaceOutside (u ''a**  **'') = u ''a**** '' \<and>
   trimBold (u ''*** *** a **'') = u ''** a **'' \<and> trimBold (u ''** a **'') = u ''**a**'' \<and>
   removeEmptyBold (u ''x*** *** **'') = u ''x** **'' \<and> removeEmptyBold (u ''x** **'') = u ''x'' \<and>
   spaceBeforeOpening (u ''a**b**c'') = u ''a **b**c'' \<and>
   spaceBeforeOpening (u ''a **b**c'') = u ''a **b **c'' \<and>
   spaceAfterClosing (u ''a**b**c'') = u ''a** b**c'' \<and>
   spaceAfterClosing (u ''a** b**c'') = u ''a** b** c''"
proof -
  have whole: "postProcess (u ''a 1 2'') = u ''a 1''" "postProcess (u ''a 1'') = u ''a''"
    by (simp_all add: post_eval)
  have pass1: "stripEndOfLine (u ''a 1 2'') = u ''a 1''" "stripEndOfLine (u ''a 1'') = u ''a''"
    by (simp_all add: post_eval)
  have pass2: "stripMidLine (u ''a 1 2 b'') = u ''a 2 b''" "stripMidLine (u ''a 2 b'') = u ''a b''"
    by (simp_all add: post_eval)
  have pass3: "stripAfterPeriod (u ''.1 2 '') = u ''. 2 ''" "stripAfterPeriod (u ''. 2 '') = u ''. ''"
    by (simp_all add: post_eval)
  have move: "moveSpaceOutside (u ''a ** **'') = u ''a**  **''"
    "moveSpaceOutside (u ''a**  **'') = u ''a**** ''"
    by (simp_all add: post_eval)
  have trimmed: "trimBold (u ''*** *** a **'') = u ''** a **''" "trimBold (u ''** a **'') = u ''**a**''"
    by (simp_all add: post_eval)
  have empty: "removeEmptyBold (u ''x*** *** **'') = u ''x** **''" "removeEmptyBold (u ''x** **'') = u ''x''"
    by (simp_all add: post_eval)
  have before: "spaceBeforeOpening (u ''a**b**c'') = u ''a **b**c''"
    "spaceBeforeOpening (u ''a **b**c'') = u ''a **b **c''"
    by (simp_all add: post_eval)
  have after: "spaceAfterClosing (u ''a**b**c'') = u ''a** b**c''"
    "spaceAfterClosing (u ''a** b**c'') = u ''a** b** c''"
    by (simp_all add: post_eval)
  from whole pass1 pass2 pass3 move trimmed empty before after show ?thesis
    by (intro conjI)
qed

end
